theory Spec2Isabelle
  imports Main "HOL-Library.Word"
begin

section \<open>Data model of the chain store (pkg/chain/store.go)\<close>

text \<open>
  \<open>abi.ChainEpoch\<close> is Go's \<open>int64\<close>: a 64-bit word whose order is the signed one
  (\<open><s\<close>, \<open>\<le>s\<close>) and whose subtraction wraps around.
\<close>

type_synonym byte = "8 word"
type_synonym ChainEpoch = "64 word"

text \<open>\<open>cid.Cid\<close> wraps a string; \<open>cid.Undef\<close> is the zero value (the empty string).\<close>

datatype cid = CidStr string

definition Undef :: cid where
  "Undef = CidStr ''''"

type_synonym TipSetKey = "cid list"

datatype error =
    ErrUndefTipSet
  | ErrNotFound string
  | ErrDatastore string
  | ErrGetBlock cid
  | ErrStateRootUndef
  | ErrReceiptsUndef
  | ErrHeightGreater
  | ErrGenesisNoBeacon
  | ErrLoadParents error
  | ErrNoBeaconEntries
  | ErrNoCommonAncestor
  | ErrExternal string
  | Wrapped string error
  | Panic

record BeaconEntry =
  Round :: "64 word"
  Data :: "byte list"

record Block =
  Cid :: cid
  Height :: ChainEpoch
  Parents :: TipSetKey
  ParentStateRoot :: cid
  ParentMessageReceipts :: cid
  BeaconEntries :: "BeaconEntry list"

text \<open>
  Modelled from the spec: \<open>block.TipSet\<close> (pkg/block, not under src/) and its accessors,
  after section 3 and invariant I1: a tipset is a list of blocks with a key; it is
  defined when it has a block; its height and parents are those its blocks share, read
  from the first block; \<open>UndefTipSet\<close> has the empty key; two tipsets are equal when
  their keys are. The \<open>Ensure\<close> variants panic where the plain ones return an error.
\<close>

record TipSet =
  blocks :: "Block list"
  key :: TipSetKey

definition UndefTipSet :: TipSet where
  "UndefTipSet = \<lparr>blocks = [], key = []\<rparr>"

definition Defined :: "TipSet \<Rightarrow> bool" where
  "Defined ts = (0 < length (blocks ts))"

definition Key :: "TipSet \<Rightarrow> TipSetKey" where
  "Key ts = key ts"

definition Empty :: "TipSetKey \<Rightarrow> bool" where
  "Empty k = (length k = 0)"

definition Equals :: "TipSet \<Rightarrow> TipSet \<Rightarrow> bool" where
  "Equals ts ts2 = (key ts = key ts2)"

definition At :: "TipSet \<Rightarrow> nat \<Rightarrow> error + Block" where
  "At ts i = (if i < length (blocks ts) then Inr (blocks ts ! i) else Inl Panic)"

definition TipSet_Height :: "TipSet \<Rightarrow> error + ChainEpoch" where
  "TipSet_Height ts =
     (case blocks ts of [] \<Rightarrow> Inl ErrUndefTipSet | b # _ \<Rightarrow> Inr (Height b))"

definition TipSet_Parents :: "TipSet \<Rightarrow> error + TipSetKey" where
  "TipSet_Parents ts =
     (case blocks ts of [] \<Rightarrow> Inl ErrUndefTipSet | b # _ \<Rightarrow> Inr (Parents b))"

definition EnsureHeight :: "TipSet \<Rightarrow> error + ChainEpoch" where
  "EnsureHeight ts = (case TipSet_Height ts of Inl e \<Rightarrow> Inl Panic | Inr h \<Rightarrow> Inr h)"

definition EnsureParents :: "TipSet \<Rightarrow> error + TipSetKey" where
  "EnsureParents ts = (case TipSet_Parents ts of Inl e \<Rightarrow> Inl Panic | Inr k \<Rightarrow> Inr k)"

record TipSetMetadata =
  TipSet :: TipSet
  TipSetStateRoot :: cid
  TipSetReceipts :: cid

record tsState =
  StateRoot :: cid
  Reciepts :: cid

datatype HCType = HCRevert | HCApply | HCCurrent

record HeadChange =
  Type :: HCType
  Val :: TipSet

record reorg =
  old :: "TipSet list"
  new :: "TipSet list"

subsection \<open>The collaborators: datastore, block source, tip index, reporter\<close>

text \<open>
  The key-value datastore (\<open>repo.Datastore\<close>): single-key operations that either take
  effect or fail and change nothing. \<open>faulty\<close> holds the keys on which the backing store
  rejects a write.
\<close>

record Datastore =
  entries :: "string \<rightharpoonup> byte list"
  faulty :: "string set"

definition ds_Get :: "Datastore \<Rightarrow> string \<Rightarrow> error + byte list" where
  "ds_Get d k = (case entries d k of None \<Rightarrow> Inl (ErrNotFound k) | Some v \<Rightarrow> Inr v)"

definition ds_Put :: "Datastore \<Rightarrow> string \<Rightarrow> byte list \<Rightarrow> error + Datastore" where
  "ds_Put d k v =
     (if k \<in> faulty d then Inl (ErrDatastore k)
      else Inr (d\<lparr>entries := (entries d)(k \<mapsto> v)\<rparr>))"

definition ds_Delete :: "Datastore \<Rightarrow> string \<Rightarrow> error + Datastore" where
  "ds_Delete d k =
     (if k \<in> faulty d then Inl (ErrDatastore k)
      else Inr (d\<lparr>entries := (entries d)(k := None)\<rparr>))"

record ipldSource =
  cborStore :: "cid \<rightharpoonup> Block"

text \<open>
  Modelled from the spec: \<open>TipIndex\<close> (pkg/chain, not under src/), after section 4.3:
  two maps, by tipset key and by (parent key, height); \<open>put\<close> inserts into both and
  replaces an entry of the same key; \<open>del\<close> removes from both; \<open>has\<close> looks the key
  up. \<open>put\<close> and \<open>del\<close> need the tipset's parents and height, so they fail on an
  undefined tipset.
\<close>

record TipIndex =
  byKey :: "TipSetKey \<rightharpoonup> TipSetMetadata"
  byParentsHeight :: "TipSetKey \<times> ChainEpoch \<Rightarrow> TipSetMetadata list"

definition NewTipIndex :: TipIndex where
  "NewTipIndex = \<lparr>byKey = Map.empty, byParentsHeight = (\<lambda>_. [])\<rparr>"

definition TipIndex_Put :: "TipIndex \<Rightarrow> TipSetMetadata \<Rightarrow> error + TipIndex" where
  "TipIndex_Put ti tsm =
     (case TipSet_Parents (TipSet tsm) of
        Inl e \<Rightarrow> Inl e
      | Inr pk \<Rightarrow>
          (case TipSet_Height (TipSet tsm) of
             Inl e \<Rightarrow> Inl e
           | Inr h \<Rightarrow>
               Inr \<lparr>byKey = (\<lambda>k. if k = Key (TipSet tsm) then Some tsm else byKey ti k),
                    byParentsHeight = (\<lambda>q.
                      if q = (pk, h)
                      then tsm # filter (\<lambda>m. Key (TipSet m) \<noteq> Key (TipSet tsm))
                                       (byParentsHeight ti q)
                      else byParentsHeight ti q)\<rparr>))"

definition TipIndex_Del :: "TipIndex \<Rightarrow> TipSet \<Rightarrow> error + TipIndex" where
  "TipIndex_Del ti ts =
     (case TipSet_Parents ts of
        Inl e \<Rightarrow> Inl e
      | Inr pk \<Rightarrow>
          (case TipSet_Height ts of
             Inl e \<Rightarrow> Inl e
           | Inr h \<Rightarrow>
               Inr \<lparr>byKey = (\<lambda>k. if k = Key ts then None else byKey ti k),
                    byParentsHeight = (\<lambda>q.
                      if q = (pk, h)
                      then filter (\<lambda>m. Key (TipSet m) \<noteq> Key ts) (byParentsHeight ti q)
                      else byParentsHeight ti q)\<rparr>))"

definition TipIndex_Has :: "TipIndex \<Rightarrow> TipSetKey \<Rightarrow> bool" where
  "TipIndex_Has ti k = (byKey ti k \<noteq> None)"

record Status =
  validatedHead :: TipSetKey
  validatedHeadHeight :: ChainEpoch

text \<open>
  The store. \<open>headEvents\<close> holds the batches published on the topic, oldest first, and
  \<open>reorgCh\<close> the reorgs sent and not yet taken by the worker; both are lists without a
  capacity, so a send does not block. The lock \<open>mu\<close> orders accesses that the model
  runs one after the other; the chain index is the two lookups among the parameters
  below; \<open>bsstore\<close> and \<open>notifees\<close> are read by none of the operations modelled here.
\<close>

record Store =
  stateAndBlockSource :: ipldSource
  ds :: Datastore
  genesis :: cid
  head :: "TipSet option"
  checkPoint :: TipSetKey
  headEvents :: "HeadChange list list"
  tipIndex :: TipIndex
  reporter :: Status
  reorgCh :: "reorg list"

text \<open>
  The functions store.go calls that are neither in store.go nor described step by step
  in the specification are parameters of the model: the byte encoding
  (\<open>encoding.Encode\<close>, \<open>encoding.Decode\<close>), \<open>block.NewTipSet\<close>, the tipset's canonical
  string, \<open>makeKey\<close>, \<open>datastore.NewKey\<close>, \<open>CollectTipsToCommonAncestor\<close> and the two
  lookups of the chain index.
\<close>

record deps =
  Encode_TipSetKey :: "TipSetKey \<Rightarrow> error + byte list"
  Decode_TipSetKey :: "byte list \<Rightarrow> error + TipSetKey"
  Encode_tsState :: "tsState \<Rightarrow> error + byte list"
  Decode_tsState :: "byte list \<Rightarrow> error + tsState"
  NewTipSet :: "Block list \<Rightarrow> error + TipSet"
  TipSet_String :: "TipSet \<Rightarrow> string"
  makeKey :: "string \<Rightarrow> ChainEpoch \<Rightarrow> string"
  NewKey :: "string \<Rightarrow> string"
  CollectTipsToCommonAncestor :: "Store \<Rightarrow> TipSet \<Rightarrow> TipSet \<Rightarrow> error + TipSet list \<times> TipSet list"
  chainIndex_GetTipSetByHeight :: "Store \<Rightarrow> TipSet \<Rightarrow> ChainEpoch \<Rightarrow> error + TipSet"
  chainIndex_GetTipsetByHeightWithoutCache :: "Store \<Rightarrow> TipSet \<Rightarrow> ChainEpoch \<Rightarrow> error + TipSet"

definition HeadKey :: "deps \<Rightarrow> string" where
  "HeadKey d = NewKey d ''/chain/heaviestTipSet''"

definition CheckPoint :: "deps \<Rightarrow> string" where
  "CheckPoint d = NewKey d ''/chain/checkPoint''"

section \<open>Operations of the store\<close>

definition GetBlock :: "ipldSource \<Rightarrow> cid \<Rightarrow> error + Block" where
  "GetBlock source c =
     (case cborStore source c of
        None \<Rightarrow> Inl (Wrapped ''failed to get block'' (ErrGetBlock c))
      | Some b \<Rightarrow> Inr b)"

fun GetBlocks :: "ipldSource \<Rightarrow> cid list \<Rightarrow> Block list \<Rightarrow> error + Block list" where
  "GetBlocks source [] blks = Inr blks"
| "GetBlocks source (c # cs) blks =
     (case GetBlock source c of
        Inl e \<Rightarrow> Inl e
      | Inr blk \<Rightarrow> GetBlocks source cs (blks @ [blk]))"

definition GetTipSet :: "deps \<Rightarrow> Store \<Rightarrow> TipSetKey \<Rightarrow> error + TipSet" where
  "GetTipSet d store k =
     (case GetBlocks (stateAndBlockSource store) k [] of
        Inl e \<Rightarrow> Inl e
      | Inr blks \<Rightarrow> NewTipSet d blks)"

definition writeHead :: "deps \<Rightarrow> Store \<Rightarrow> TipSetKey \<Rightarrow> error + Store" where
  "writeHead d store cids =
     (case Encode_TipSetKey d cids of
        Inl e \<Rightarrow> Inl e
      | Inr val \<Rightarrow>
          (case ds_Put (ds store) (HeadKey d) val of
             Inl e \<Rightarrow> Inl e
           | Inr ds' \<Rightarrow> Inr (store\<lparr>ds := ds'\<rparr>)))"

definition GetHead :: "Store \<Rightarrow> TipSetKey" where
  "GetHead store =
     (case head store of
        None \<Rightarrow> []
      | Some h \<Rightarrow> if \<not> Defined h then [] else Key h)"

text \<open>
  Modelled from the spec: \<open>Reverse\<close> (pkg/chain, not under src/), after section 4.6.1,
  step 6: it reverses the list it is given.
\<close>

definition Reverse :: "TipSet list \<Rightarrow> TipSet list" where
  "Reverse xs = rev xs"

text \<open>
  The critical section of \<open>SetHead\<close> (the closure run under \<open>store.mu\<close>): it returns
  \<open>dropped\<close>, \<open>added\<close> and \<open>update\<close> with the store it leaves, or the error, in which
  case the store is as it was.
\<close>

definition SetHead_locked ::
  "deps \<Rightarrow> Store \<Rightarrow> TipSet \<Rightarrow> error + (TipSet list \<times> TipSet list \<times> bool) \<times> Store" where
  "SetHead_locked d store newTs =
     (case (case head store of
              Some oldHead \<Rightarrow>
                if Equals oldHead newTs then Inr None
                else (case CollectTipsToCommonAncestor d store oldHead newTs of
                        Inl e \<Rightarrow> Inl e
                      | Inr (dropped, added) \<Rightarrow> Inr (Some (dropped, added)))
            | None \<Rightarrow> Inr (Some ([], [newTs]))) of
        Inl e \<Rightarrow> Inl e
      | Inr None \<Rightarrow> Inr (([], [], False), store)
      | Inr (Some (dropped, added)) \<Rightarrow>
          (case writeHead d store (Key newTs) of
             Inl errInner \<Rightarrow> Inl (Wrapped ''failed to write new Head to datastore'' errInner)
           | Inr store' \<Rightarrow> Inr ((dropped, added, True), store'\<lparr>head := Some newTs\<rparr>)))"

definition UpdateStatus :: "TipSetKey \<Rightarrow> ChainEpoch \<Rightarrow> Status \<Rightarrow> Status" where
  "UpdateStatus k h st = st\<lparr>validatedHead := k, validatedHeadHeight := h\<rparr>"

definition SetHead :: "deps \<Rightarrow> Store \<Rightarrow> TipSet \<Rightarrow> error option \<times> Store" where
  "SetHead d store newTs =
     (case SetHead_locked d store newTs of
        Inl err \<Rightarrow> (Some err, store)
      | Inr ((dropped, added, update), store1) \<Rightarrow>
          if \<not> update then (None, store1)
          else (case TipSet_Height newTs of
                  Inl err \<Rightarrow> (Some err, store1)
                | Inr h \<Rightarrow>
                    (None, store1\<lparr>reporter := UpdateStatus (Key newTs) h (reporter store1),
                                    reorgCh := reorgCh store1 @
                                      [\<lparr>old = Reverse dropped, new = Reverse added\<rparr>]\<rparr>)))"

text \<open>
  The notifee the reorg worker starts with: it builds one batch, the reverts in the
  first \<open>len(rev)\<close> slots and the applies after them, and publishes it.
\<close>

definition headChangeNotif :: "TipSet list \<Rightarrow> TipSet list \<Rightarrow> HeadChange list" where
  "headChangeNotif rv app =
     map (\<lambda>t. \<lparr>Type = HCRevert, Val = t\<rparr>) rv @ map (\<lambda>t. \<lparr>Type = HCApply, Val = t\<rparr>) app"

definition headChangeNotifee :: "Store \<Rightarrow> TipSet list \<Rightarrow> TipSet list \<Rightarrow> Store" where
  "headChangeNotifee store rv app =
     store\<lparr>headEvents := headEvents store @ [headChangeNotif rv app]\<rparr>"

text \<open>
  The worker started by \<open>reorgWorker\<close>, run until the channel is empty: it takes the
  reorgs in the order they were sent and calls its notifee on each. That notifee never
  returns an error, so the worker's list of notifees stays as it is.
\<close>

fun reorgWorker_loop :: "reorg list \<Rightarrow> Store \<Rightarrow> Store" where
  "reorgWorker_loop [] store = store"
| "reorgWorker_loop (r # rs) store = reorgWorker_loop rs (headChangeNotifee store (old r) (new r))"

definition reorgWorker :: "Store \<Rightarrow> Store" where
  "reorgWorker store = reorgWorker_loop (reorgCh store) (store\<lparr>reorgCh := []\<rparr>)"

text \<open>The test \<open>store.head != nil && store.head.Equals(newTs)\<close> of SetHead.\<close>

definition headIs :: "Store \<Rightarrow> TipSet \<Rightarrow> bool" where
  "headIs store newTs = (case head store of None \<Rightarrow> False | Some h \<Rightarrow> Equals h newTs)"

subsection \<open>Per-tipset metadata\<close>

definition metaKey :: "deps \<Rightarrow> TipSet \<Rightarrow> ChainEpoch \<Rightarrow> string" where
  "metaKey d ts h = NewKey d (makeKey d (TipSet_String d ts) h)"

definition writeTipSetMetadata :: "deps \<Rightarrow> Store \<Rightarrow> TipSetMetadata \<Rightarrow> error + Store" where
  "writeTipSetMetadata d store tsm =
     (if TipSetStateRoot tsm = Undef then Inl ErrStateRootUndef
      else if TipSetReceipts tsm = Undef then Inl ErrReceiptsUndef
      else (case Encode_tsState d \<lparr>StateRoot = TipSetStateRoot tsm, Reciepts = TipSetReceipts tsm\<rparr> of
              Inl e \<Rightarrow> Inl e
            | Inr val \<Rightarrow>
                (case TipSet_Height (TipSet tsm) of
                   Inl e \<Rightarrow> Inl e
                 | Inr h \<Rightarrow>
                     (case ds_Put (ds store) (metaKey d (TipSet tsm) h) val of
                        Inl e \<Rightarrow> Inl e
                      | Inr ds' \<Rightarrow> Inr (store\<lparr>ds := ds'\<rparr>)))))"

definition PutTipSetMetadata :: "deps \<Rightarrow> Store \<Rightarrow> TipSetMetadata \<Rightarrow> error option \<times> Store" where
  "PutTipSetMetadata d store tsm =
     (case TipIndex_Put (tipIndex store) tsm of
        Inl err \<Rightarrow> (Some err, store)
      | Inr ti \<Rightarrow>
          (case writeTipSetMetadata d (store\<lparr>tipIndex := ti\<rparr>) tsm of
             Inl err \<Rightarrow> (Some err, store\<lparr>tipIndex := ti\<rparr>)
           | Inr store' \<Rightarrow> (None, store')))"

definition deleteTipSetMetadata :: "deps \<Rightarrow> Store \<Rightarrow> TipSet \<Rightarrow> error + Store" where
  "deleteTipSetMetadata d store ts =
     (case TipSet_Height ts of
        Inl e \<Rightarrow> Inl e
      | Inr h \<Rightarrow>
          (case ds_Delete (ds store) (metaKey d ts h) of
             Inl e \<Rightarrow> Inl e
           | Inr ds' \<Rightarrow> Inr (store\<lparr>ds := ds'\<rparr>)))"

definition DelTipSetMetadata :: "deps \<Rightarrow> Store \<Rightarrow> TipSet \<Rightarrow> error option \<times> Store" where
  "DelTipSetMetadata d store ts =
     (case TipIndex_Del (tipIndex store) ts of
        Inl err \<Rightarrow> (Some err, store)
      | Inr ti \<Rightarrow>
          (case deleteTipSetMetadata d (store\<lparr>tipIndex := ti\<rparr>) ts of
             Inl err \<Rightarrow> (Some err, store\<lparr>tipIndex := ti\<rparr>)
           | Inr store' \<Rightarrow> (None, store')))"

definition HasTipSetAndState :: "Store \<Rightarrow> TipSetKey \<Rightarrow> bool" where
  "HasTipSetAndState store k = TipIndex_Has (tipIndex store) k"

definition loadStateRootAndReceipts :: "deps \<Rightarrow> Store \<Rightarrow> TipSet \<Rightarrow> error + cid \<times> cid" where
  "loadStateRootAndReceipts d store ts =
     (case TipSet_Height ts of
        Inl e \<Rightarrow> Inl e
      | Inr h \<Rightarrow>
          (case ds_Get (ds store) (metaKey d ts h) of
             Inl e \<Rightarrow> Inl (Wrapped ''failed to read tipset key'' e)
           | Inr bb \<Rightarrow>
               (case Decode_tsState d bb of
                  Inl e \<Rightarrow> Inl (Wrapped ''failed to decode tip set metadata'' e)
                | Inr metadata \<Rightarrow> Inr (StateRoot metadata, Reciepts metadata))))"

subsection \<open>The checkpoint\<close>

definition SetCheckPoint :: "Store \<Rightarrow> TipSetKey \<Rightarrow> Store" where
  "SetCheckPoint store cp = store\<lparr>checkPoint := cp\<rparr>"

definition WriteCheckPoint :: "deps \<Rightarrow> Store \<Rightarrow> TipSetKey \<Rightarrow> error option \<times> Store" where
  "WriteCheckPoint d store cids =
     (case Encode_TipSetKey d cids of
        Inl err \<Rightarrow> (Some err, store)
      | Inr val \<Rightarrow>
          (case ds_Put (ds store) (CheckPoint d) val of
             Inl err \<Rightarrow> (Some err, store)
           | Inr ds' \<Rightarrow> (None, store\<lparr>ds := ds'\<rparr>)))"

definition GetCheckPoint :: "Store \<Rightarrow> TipSetKey" where
  "GetCheckPoint store = checkPoint store"

subsection \<open>Ancestor queries\<close>

text \<open>
  Lines 375 to 386 of store.go: the lookup in the chain index, and the uncached one
  when the cached answer is below the height asked for. Its result is the tipset the
  walk lands on.
\<close>

definition chainIndex_lookup :: "deps \<Rightarrow> Store \<Rightarrow> TipSet \<Rightarrow> ChainEpoch \<Rightarrow> error + TipSet" where
  "chainIndex_lookup d store ts h =
     (case chainIndex_GetTipSetByHeight d store ts h of
        Inl e \<Rightarrow> Inl e
      | Inr lbts \<Rightarrow>
          (case EnsureHeight lbts of
             Inl e \<Rightarrow> Inl e
           | Inr hl \<Rightarrow>
               if hl <s h then chainIndex_GetTipsetByHeightWithoutCache d store ts h
               else Inr lbts))"

definition GetTipSetByHeight ::
  "deps \<Rightarrow> Store \<Rightarrow> TipSet option \<Rightarrow> ChainEpoch \<Rightarrow> bool \<Rightarrow> error + TipSet" where
  "GetTipSetByHeight d store ts0 h prev =
     (case (case ts0 of None \<Rightarrow> head store | Some t \<Rightarrow> Some t) of
        None \<Rightarrow> Inl Panic
      | Some ts \<Rightarrow>
     (case EnsureHeight ts of
        Inl e \<Rightarrow> Inl e
      | Inr hts \<Rightarrow>
          if hts <s h then Inl ErrHeightGreater
          else if h = hts then Inr ts
          else (case chainIndex_lookup d store ts h of
                  Inl e \<Rightarrow> Inl e
                | Inr lbts \<Rightarrow>
               (case EnsureHeight lbts of
                  Inl e \<Rightarrow> Inl e
                | Inr hl \<Rightarrow>
                    if hl = h \<or> \<not> prev then Inr lbts
                    else (case EnsureParents lbts of
                            Inl e \<Rightarrow> Inl e
                          | Inr pk \<Rightarrow> GetTipSet d store pk)))))"

text \<open>\<open>os.Getenv\<close>: the value of the variable, the empty string when it is unset.\<close>

definition Getenv :: "(string \<rightharpoonup> string) \<Rightarrow> string \<Rightarrow> string" where
  "Getenv env k = (case env k of None \<Rightarrow> [] | Some v \<Rightarrow> v)"

text \<open>
  The loop of \<open>GetLatestBeaconEntry\<close>, with the number of rounds left: \<open>Inr (Some e)\<close>
  is a return from inside the loop, \<open>Inr None\<close> is the loop running out.
\<close>

fun beaconLoop :: "deps \<Rightarrow> Store \<Rightarrow> nat \<Rightarrow> TipSet \<Rightarrow> error + BeaconEntry option" where
  "beaconLoop d store 0 cur = Inr None"
| "beaconLoop d store (Suc n) cur =
     (case At cur 0 of
        Inl e \<Rightarrow> Inl e
      | Inr b \<Rightarrow>
          if 0 < length (BeaconEntries b) then Inr (Some (last (BeaconEntries b)))
          else (case EnsureHeight cur of
                  Inl e \<Rightarrow> Inl e
                | Inr h \<Rightarrow>
                    if h = 0 then Inl ErrGenesisNoBeacon
                    else (case EnsureParents cur of
                            Inl e \<Rightarrow> Inl e
                          | Inr pk \<Rightarrow>
                              (case GetTipSet d store pk of
                                 Inl e \<Rightarrow> Inl (ErrLoadParents e)
                               | Inr next \<Rightarrow> beaconLoop d store n next))))"

definition GetLatestBeaconEntry ::
  "deps \<Rightarrow> (string \<rightharpoonup> string) \<Rightarrow> Store \<Rightarrow> TipSet \<Rightarrow> error + BeaconEntry" where
  "GetLatestBeaconEntry d env store ts =
     (case beaconLoop d store 20 ts of
        Inl e \<Rightarrow> Inl e
      | Inr (Some e) \<Rightarrow> Inr e
      | Inr None \<Rightarrow>
          if Getenv env ''VENUS_IGNORE_DRAND'' = ''_yes_''
          then Inr \<lparr>Round = 0, Data = [9, 9, 9, 9, 9, 9, 9, 9, 9, 9, 9, 9, 9, 9, 9, 9]\<rparr>
          else Inl ErrNoBeaconEntries)"

text \<open>
  The ancestors of a tipset, by number of steps: the tipset itself at 0, then the
  tipset of the parents, loaded as \<open>GetLatestBeaconEntry\<close> loads it. A tipset is
  silent when it is defined, is not at height 0, and its first block carries no beacon
  entry; \<open>silent_ancestors\<close> says so of the ancestors at steps 0 to \<open>n - 1\<close>.
\<close>

fun nthAncestor :: "deps \<Rightarrow> Store \<Rightarrow> TipSet \<Rightarrow> nat \<Rightarrow> error + TipSet" where
  "nthAncestor d store ts 0 = Inr ts"
| "nthAncestor d store ts (Suc i) =
     (case TipSet_Parents ts of
        Inl e \<Rightarrow> Inl e
      | Inr pk \<Rightarrow>
          (case GetTipSet d store pk of
             Inl e \<Rightarrow> Inl e
           | Inr p \<Rightarrow> nthAncestor d store p i))"

definition silent :: "TipSet \<Rightarrow> bool" where
  "silent ts = (case blocks ts of [] \<Rightarrow> False | b # _ \<Rightarrow> BeaconEntries b = [] \<and> Height b \<noteq> 0)"

definition silent_ancestors :: "deps \<Rightarrow> Store \<Rightarrow> TipSet \<Rightarrow> nat \<Rightarrow> bool" where
  "silent_ancestors d store ts n =
     list_all (\<lambda>i. case nthAncestor d store ts i of Inl e \<Rightarrow> False | Inr c \<Rightarrow> silent c) [0..<n]"

subsection \<open>Rebuilding the caches: Load\<close>

definition loadHead :: "deps \<Rightarrow> Store \<Rightarrow> error + TipSetKey" where
  "loadHead d store =
     (case ds_Get (ds store) (HeadKey d) of
        Inl e \<Rightarrow> Inl (Wrapped ''failed to read HeadKey'' e)
      | Inr bb \<Rightarrow>
          (case Decode_TipSetKey d bb of
             Inl e \<Rightarrow> Inl (Wrapped ''failed to cast headCids'' e)
           | Inr cids \<Rightarrow> Inr cids))"

text \<open>
  Modelled from the spec: \<open>LoadTipSetBlocks\<close> and the ancestor iterator returned by
  \<open>IterAncestors\<close> (pkg/chain, not under src/), after sections 4.1 and 4.6.3:
  \<open>load_tipset_by_key\<close> fetches each member block and builds the tipset, and fails
  when a member is missing, when the tipset cannot be built, or when the resulting set
  of blocks is empty; the iterator starts at the given tipset and walks towards lower
  heights, one parent set at a time; it is exhausted once it has moved past a tipset
  without parents (genesis); a parent that cannot be loaded is an error that leaves the
  iterator where it was, so that Load fails on a missing block.
\<close>

definition LoadTipSetBlocks :: "deps \<Rightarrow> ipldSource \<Rightarrow> TipSetKey \<Rightarrow> error + TipSet" where
  "LoadTipSetBlocks d source k =
     (case GetBlocks source k [] of
        Inl e \<Rightarrow> Inl e
      | Inr blks \<Rightarrow>
          (case NewTipSet d blks of
             Inl e \<Rightarrow> Inl e
           | Inr ts \<Rightarrow> if Defined ts then Inr ts else Inl ErrUndefTipSet))"

definition IterAncestors :: "TipSet \<Rightarrow> TipSet" where
  "IterAncestors start = start"

definition Complete :: "TipSet \<Rightarrow> bool" where
  "Complete it = (\<not> Defined it)"

definition Next :: "deps \<Rightarrow> ipldSource \<Rightarrow> TipSet \<Rightarrow> error option \<times> TipSet" where
  "Next d source it =
     (case TipSet_Parents it of
        Inl e \<Rightarrow> (Some e, it)
      | Inr parentKey \<Rightarrow>
          if Empty parentKey then (None, UndefTipSet)
          else (case LoadTipSetBlocks d source parentKey of
                  Inl e \<Rightarrow> (Some e, it)
                | Inr ts \<Rightarrow> (None, ts)))"

text \<open>
  Lines 206 to 214 of store.go: \<open>loopBack\<close> is 0 without a checkpoint, and the
  checkpoint's height minus 10, in \<open>int64\<close>, with one.
\<close>

definition Load_loopBack :: "deps \<Rightarrow> Store \<Rightarrow> error + ChainEpoch" where
  "Load_loopBack d store =
     (if \<not> Empty (checkPoint store)
      then (case LoadTipSetBlocks d (stateAndBlockSource store) (checkPoint store) of
              Inl e \<Rightarrow> Inl (Wrapped ''error loading head tipset'' e)
            | Inr checkPointTs \<Rightarrow>
                (case EnsureHeight checkPointTs of
                   Inl e \<Rightarrow> Inl e
                 | Inr h \<Rightarrow> Inr (h - 10)))
      else Inr 0)"

text \<open>
  The \<open>for\<close> loop of Load. Its header tests \<open>Complete\<close> before the body looks at the
  error of the last \<open>Next\<close>. The first argument bounds the number of rounds: the result
  is \<open>None\<close> when the walk has not ended within them.
\<close>

fun loadLoop ::
  "deps \<Rightarrow> nat \<Rightarrow> ipldSource \<Rightarrow> ChainEpoch \<Rightarrow> TipSet \<Rightarrow> error option \<Rightarrow> Store
     \<Rightarrow> (error option \<times> Store) option" where
  "loadLoop d 0 source loopBack it err store = None"
| "loadLoop d (Suc n) source loopBack it err store =
     (if Complete it then Some (None, store)
      else (case err of
              Some e \<Rightarrow> Some (Some e, store)
            | None \<Rightarrow>
          (case TipSet_Height it of
             Inl e \<Rightarrow> Some (Some e, store)
           | Inr height \<Rightarrow>
          (case loadStateRootAndReceipts d store it of
             Inl e \<Rightarrow> Some (Some e, store)
           | Inr (stateRoot, receipts) \<Rightarrow>
          (case PutTipSetMetadata d store
                  \<lparr>TipSet = it, TipSetStateRoot = stateRoot, TipSetReceipts = receipts\<rparr> of
             (Some e, store1) \<Rightarrow> Some (Some e, store1)
           | (None, store1) \<Rightarrow>
          (case EnsureHeight it of
             Inl e \<Rightarrow> Some (Some e, store1)
           | Inr h \<Rightarrow>
               if h \<le>s loopBack then Some (None, store1)
               else (case Next d source it of
                       (err', it') \<Rightarrow> loadLoop d n source loopBack it' err' store1)))))))"

definition Load :: "deps \<Rightarrow> nat \<Rightarrow> Store \<Rightarrow> (error option \<times> Store) option" where
  "Load d fuel store0 =
     (let store = store0\<lparr>tipIndex := NewTipIndex\<rparr> in
      case loadHead d store of
        Inl err \<Rightarrow> Some (Some err, store)
      | Inr headTsKey \<Rightarrow>
     (case LoadTipSetBlocks d (stateAndBlockSource store) headTsKey of
        Inl err \<Rightarrow> Some (Some (Wrapped ''error loading head tipset'' err), store)
      | Inr headTs \<Rightarrow>
     (case Load_loopBack d store of
        Inl err \<Rightarrow> Some (Some err, store)
      | Inr loopBack \<Rightarrow>
     (case At headTs 0 of
        Inl e \<Rightarrow> Some (Some e, store)
      | Inr b0 \<Rightarrow>
     (case loadLoop d fuel (stateAndBlockSource store) loopBack (IterAncestors headTs) None store of
        None \<Rightarrow> None
      | Some (Some err, store1) \<Rightarrow> Some (Some err, store1)
      | Some (None, store1) \<Rightarrow> Some (SetHead d store1 headTs))))))"

subsection \<open>The walk of Load and the reorg walk, as the specification words them\<close>

text \<open>
  Section 4.6.3, steps 4 and 5: the tipsets visited from a start, nearest first, up to
  and including the first whose height is at most \<open>stop_at\<close>, or up to the last one
  the iterator yields. \<open>None\<close> when a parent does not load or the walk does not end
  within the bound.
\<close>

fun ancestorsTo ::
  "deps \<Rightarrow> ipldSource \<Rightarrow> nat \<Rightarrow> ChainEpoch \<Rightarrow> TipSet \<Rightarrow> TipSet list option" where
  "ancestorsTo d source 0 stop_at it = None"
| "ancestorsTo d source (Suc n) stop_at it =
     (if Complete it then Some []
      else (case TipSet_Height it of
              Inl e \<Rightarrow> None
            | Inr h \<Rightarrow>
                if h \<le>s stop_at then Some [it]
                else (case Next d source it of
                        (Some e, it') \<Rightarrow> None
                      | (None, it') \<Rightarrow>
                          map_option ((#) it) (ancestorsTo d source n stop_at it'))))"


text \<open>
  Section 4.6.3, step 3, in the specification's words: the checkpoint's height minus
  10, saturating at 0; 0 when there is no checkpoint.
\<close>

definition stop_at_saturating :: "ChainEpoch option \<Rightarrow> ChainEpoch" where
  "stop_at_saturating cp =
     (case cp of None \<Rightarrow> 0 | Some h \<Rightarrow> if h <s 10 then 0 else h - 10)"

text \<open>
  Modelled from the spec: \<open>CollectTipsToCommonAncestor\<close> (pkg/chain, not under src/),
  after section 4.5: both sides walk towards lower heights, each tipset passed is
  appended to the list of its side, the side whose current tipset is higher advances and
  on a tie both do; the walk ends when both sides have the same key, and that common
  ancestor is in neither list; a side that would step past a tipset without parents
  fails with NoCommonAncestor. The first argument bounds the number of rounds.
\<close>

definition parent_tipset :: "(TipSetKey \<Rightarrow> error + TipSet) \<Rightarrow> TipSet \<Rightarrow> error + TipSet" where
  "parent_tipset get ts =
     (case TipSet_Parents ts of
        Inl e \<Rightarrow> Inl e
      | Inr pk \<Rightarrow> if Empty pk then Inl ErrNoCommonAncestor else get pk)"

fun collect_to_common_ancestor ::
  "nat \<Rightarrow> (TipSetKey \<Rightarrow> error + TipSet) \<Rightarrow> TipSet \<Rightarrow> TipSet \<Rightarrow> TipSet list \<Rightarrow> TipSet list
     \<Rightarrow> (error + TipSet list \<times> TipSet list) option" where
  "collect_to_common_ancestor 0 get ol nw dropped added = None"
| "collect_to_common_ancestor (Suc n) get ol nw dropped added =
     (if Key ol = Key nw then Some (Inr (dropped, added))
      else (case TipSet_Height ol of
              Inl e \<Rightarrow> Some (Inl e)
            | Inr ho \<Rightarrow>
          (case TipSet_Height nw of
             Inl e \<Rightarrow> Some (Inl e)
           | Inr hn \<Rightarrow>
               if hn <s ho
               then (case parent_tipset get ol of
                       Inl e \<Rightarrow> Some (Inl e)
                     | Inr ol' \<Rightarrow>
                         collect_to_common_ancestor n get ol' nw (dropped @ [ol]) added)
               else if ho <s hn
               then (case parent_tipset get nw of
                       Inl e \<Rightarrow> Some (Inl e)
                     | Inr nw' \<Rightarrow>
                         collect_to_common_ancestor n get ol nw' dropped (added @ [nw]))
               else (case parent_tipset get ol of
                       Inl e \<Rightarrow> Some (Inl e)
                     | Inr ol' \<Rightarrow>
                    (case parent_tipset get nw of
                       Inl e \<Rightarrow> Some (Inl e)
                     | Inr nw' \<Rightarrow>
                         collect_to_common_ancestor n get ol' nw'
                           (dropped @ [ol]) (added @ [nw]))))))"

text \<open>
  The reorg computation that \<open>SetHead\<close> is given does, on the pair of the current head
  and \<open>newTs\<close>, what section 4.5 says.
\<close>

definition collect_as_specified :: "nat \<Rightarrow> deps \<Rightarrow> Store \<Rightarrow> TipSet \<Rightarrow> bool" where
  "collect_as_specified n d store newTs =
     (case head store of
        None \<Rightarrow> True
      | Some oldHead \<Rightarrow>
          collect_to_common_ancestor n (GetTipSet d store) oldHead newTs [] []
            = Some (CollectTipsToCommonAncestor d store oldHead newTs))"

text \<open>
  Oldest first along the walk: every tipset of the list is the parent tipset of the
  one that follows it.
\<close>

fun oldest_first :: "(TipSetKey \<Rightarrow> error + TipSet) \<Rightarrow> TipSet list \<Rightarrow> bool" where
  "oldest_first get [] = True"
| "oldest_first get [x] = True"
| "oldest_first get (x # y # zs) = (parent_tipset get y = Inr x \<and> oldest_first get (y # zs))"

text \<open>In a batch, every revert entry comes before every apply entry.\<close>

fun reverts_then_applies :: "HeadChange list \<Rightarrow> bool" where
  "reverts_then_applies [] = True"
| "reverts_then_applies (c # cs) =
     (if Type c = HCRevert then reverts_then_applies cs
      else Type c = HCApply \<and> list_all (\<lambda>c'. Type c' = HCApply) cs)"

subsection \<open>The uncached walk to an ancestor at a height\<close>

text \<open>
  \<open>walkBack\<close> of store.go over a tipset provider. Its \<open>for\<close> loop has no bound of
  its own: the first argument bounds the number of rounds, and the result is \<open>None\<close>
  when the walk has not ended within them.
\<close>

fun walkBack_loop ::
  "nat \<Rightarrow> (TipSetKey \<Rightarrow> error + TipSet) \<Rightarrow> TipSet \<Rightarrow> ChainEpoch \<Rightarrow> (error + TipSet) option" where
  "walkBack_loop 0 get ts to = None"
| "walkBack_loop (Suc n) get ts to =
     (case EnsureParents ts of
        Inl e \<Rightarrow> Some (Inl e)
      | Inr pk \<Rightarrow>
     (case get pk of
        Inl e \<Rightarrow> Some (Inl e)
      | Inr pts \<Rightarrow>
     (case EnsureHeight pts of
        Inl e \<Rightarrow> Some (Inl e)
      | Inr hp \<Rightarrow>
          if hp <s to then Some (Inr ts)
          else if to = hp then Some (Inr pts)
          else walkBack_loop n get pts to)))"

definition walkBack_on ::
  "nat \<Rightarrow> (TipSetKey \<Rightarrow> error + TipSet) \<Rightarrow> TipSet \<Rightarrow> ChainEpoch \<Rightarrow> (error + TipSet) option" where
  "walkBack_on fuel get from to =
     (case EnsureHeight from of
        Inl e \<Rightarrow> Some (Inl e)
      | Inr hf \<Rightarrow>
          if hf <s to then Some (Inl ErrHeightGreater)
          else if to = hf then Some (Inr from)
          else walkBack_loop fuel get from to)"

definition walkBack :: "deps \<Rightarrow> nat \<Rightarrow> Store \<Rightarrow> TipSet \<Rightarrow> ChainEpoch \<Rightarrow> (error + TipSet) option" where
  "walkBack d fuel store from to = walkBack_on fuel (GetTipSet d store) from to"

section \<open>A concrete chain and concrete collaborators\<close>

text \<open>
  A chain to run the model on. Block \<open>i\<close> of the main chain has the CID \<open>b\<close> followed
  by \<open>i\<close> letters \<open>a\<close>; block 0 is genesis; block 3 alone carries a beacon entry; there
  is no block at height 35 (a null round), so that blocks 35 and up sit one height above
  their index. A fork leaves the main chain after block 2: its blocks have the CIDs
  \<open>f\<close> followed by \<open>i\<close> letters \<open>a\<close>, for \<open>i\<close> from 3.
\<close>

definition mainCid :: "nat \<Rightarrow> cid" where
  "mainCid i = CidStr (CHR ''b'' # replicate i CHR ''a'')"

definition forkCid :: "nat \<Rightarrow> cid" where
  "forkCid i = CidStr (CHR ''f'' # replicate i CHR ''a'')"

definition mainBlock :: "nat \<Rightarrow> Block" where
  "mainBlock i =
     \<lparr>Cid = mainCid i,
      Height = of_nat (if 35 \<le> i then i + 1 else i),
      Parents = (if i = 0 then [] else [mainCid (i - 1)]),
      ParentStateRoot = CidStr ''state'',
      ParentMessageReceipts = CidStr ''receipts'',
      BeaconEntries = (if i = 3 then [\<lparr>Round = 3, Data = [1, 2]\<rparr>] else [])\<rparr>"

definition forkBlock :: "nat \<Rightarrow> Block" where
  "forkBlock i =
     \<lparr>Cid = forkCid i,
      Height = of_nat i,
      Parents = (if i = 3 then [mainCid 2] else [forkCid (i - 1)]),
      ParentStateRoot = CidStr ''state'',
      ParentMessageReceipts = CidStr ''receipts'',
      BeaconEntries = []\<rparr>"

definition ex_source :: ipldSource where
  "ex_source =
     \<lparr>cborStore = (\<lambda>c. case c of CidStr s \<Rightarrow>
        (case s of
           [] \<Rightarrow> None
         | x # r \<Rightarrow>
             if r \<noteq> replicate (length r) CHR ''a'' \<or> 60 < length r then None
             else if x = CHR ''b'' then Some (mainBlock (length r))
             else if x = CHR ''f'' \<and> 3 \<le> length r then Some (forkBlock (length r))
             else None))\<rparr>"

definition mainTs :: "nat \<Rightarrow> TipSet" where
  "mainTs i = \<lparr>blocks = [mainBlock i], key = [mainCid i]\<rparr>"

definition forkTs :: "nat \<Rightarrow> TipSet" where
  "forkTs i = \<lparr>blocks = [forkBlock i], key = [forkCid i]\<rparr>"

text \<open>
  Collaborators for that chain: tipsets are built as section 4.1 says, a key is encoded
  as its CIDs, each closed by a zero byte, and the metadata pair as the key of its two
  roots.
\<close>

definition ex_NewTipSet :: "Block list \<Rightarrow> error + TipSet" where
  "ex_NewTipSet blks =
     (case blks of
        [] \<Rightarrow> Inl (ErrExternal ''no blocks'')
      | b # bs \<Rightarrow>
          if list_all (\<lambda>b'. Height b' = Height b \<and> Parents b' = Parents b) bs
          then Inr \<lparr>blocks = blks, key = map Cid blks\<rparr>
          else Inl (ErrExternal ''blocks disagree''))"

definition ex_encode :: "TipSetKey \<Rightarrow> byte list" where
  "ex_encode k =
     concat (map (\<lambda>c. case c of CidStr s \<Rightarrow> map (\<lambda>x. of_nat (of_char x)) s @ [0]) k)"

fun ex_decode :: "byte list \<Rightarrow> string \<Rightarrow> TipSetKey \<Rightarrow> TipSetKey" where
  "ex_decode [] cur acc = acc"
| "ex_decode (b # bs) cur acc =
     (if b = 0 then ex_decode bs [] (acc @ [CidStr cur])
      else ex_decode bs (cur @ [char_of (unat b)]) acc)"

definition ex_get :: "Store \<Rightarrow> TipSetKey \<Rightarrow> error + TipSet" where
  "ex_get store k =
     (case GetBlocks (stateAndBlockSource store) k [] of
        Inl e \<Rightarrow> Inl e
      | Inr blks \<Rightarrow> ex_NewTipSet blks)"

definition ex_deps :: deps where
  "ex_deps =
     \<lparr>Encode_TipSetKey = (\<lambda>k. Inr (ex_encode k)),
      Decode_TipSetKey = (\<lambda>bs. Inr (ex_decode bs [] [])),
      Encode_tsState = (\<lambda>m. Inr (ex_encode [StateRoot m, Reciepts m])),
      Decode_tsState = (\<lambda>bs. case ex_decode bs [] [] of
                          [a, b] \<Rightarrow> Inr \<lparr>StateRoot = a, Reciepts = b\<rparr>
                        | _ \<Rightarrow> Inl (ErrExternal ''not a pair'')),
      NewTipSet = ex_NewTipSet,
      TipSet_String = (\<lambda>ts. concat (map (\<lambda>c. case c of CidStr s \<Rightarrow> s) (key ts))),
      makeKey = (\<lambda>s h. s @ ''-'' @ replicate (unat h) CHR ''i''),
      NewKey = (\<lambda>s. case s of [] \<Rightarrow> ''/'' | x # r \<Rightarrow> if x = CHR ''/'' then s else CHR ''/'' # s),
      CollectTipsToCommonAncestor = (\<lambda>store ol nw.
        case collect_to_common_ancestor 100 (ex_get store) ol nw [] [] of
          None \<Rightarrow> Inl (ErrExternal ''no end'')
        | Some r \<Rightarrow> r),
      chainIndex_GetTipSetByHeight = (\<lambda>store ts h.
        case walkBack_on 100 (ex_get store) ts h of
          None \<Rightarrow> Inl (ErrExternal ''no end'')
        | Some r \<Rightarrow> r),
      chainIndex_GetTipsetByHeightWithoutCache = (\<lambda>store ts h.
        case walkBack_on 100 (ex_get store) ts h of
          None \<Rightarrow> Inl (ErrExternal ''no end'')
        | Some r \<Rightarrow> r)\<rparr>"

definition ex_store :: Store where
  "ex_store =
     \<lparr>stateAndBlockSource = ex_source,
      ds = \<lparr>entries = Map.empty, faulty = {}\<rparr>,
      genesis = mainCid 0,
      head = None,
      checkPoint = [mainCid 0],
      headEvents = [],
      tipIndex = NewTipIndex,
      reporter = \<lparr>validatedHead = [], validatedHeadHeight = 0\<rparr>,
      reorgCh = []\<rparr>"

text \<open>Stores over the concrete chain: one whose head is set, one that rejects the head slot.\<close>

definition ex_store_at :: "TipSet \<Rightarrow> Store" where
  "ex_store_at ts = ex_store\<lparr>head := Some ts\<rparr>"

definition ex_store_faulty :: Store where
  "ex_store_faulty = ex_store\<lparr>ds := \<lparr>entries = Map.empty, faulty = {''/chain/heaviestTipSet''}\<rparr>\<rparr>"

definition orphanTs :: TipSet where
  "orphanTs =
     \<lparr>blocks = [\<lparr>Cid = CidStr ''z'', Height = 0, Parents = [],
                 ParentStateRoot = CidStr ''state'', ParentMessageReceipts = CidStr ''receipts'',
                 BeaconEntries = []\<rparr>],
      key = [CidStr ''z'']\<rparr>"

definition ex_meta_ok :: TipSetMetadata where
  "ex_meta_ok =
     \<lparr>TipSet = mainTs 4, TipSetStateRoot = CidStr ''state'', TipSetReceipts = CidStr ''receipts''\<rparr>"

definition ex_meta_undef :: TipSetMetadata where
  "ex_meta_undef = \<lparr>TipSet = mainTs 4, TipSetStateRoot = Undef, TipSetReceipts = CidStr ''receipts''\<rparr>"

text \<open>
  A store as a restart finds it: the head slot names block 3 of the main chain, the
  metadata of every tipset of the main chain is on disk, and the checkpoint is genesis,
  as \<open>NewStore\<close> sets it when the datastore has none.
\<close>

definition ex_store_disk :: Store where
  "ex_store_disk =
     ex_store\<lparr>ds := \<lparr>entries = (\<lambda>k.
                   if k = ''/chain/heaviestTipSet'' then Some (ex_encode [mainCid 3])
                   else if take 2 k = ''/b''
                   then Some (ex_encode [CidStr ''state'', CidStr ''receipts''])
                   else None),
                 faulty = {}\<rparr>\<rparr>"





text \<open>
  A chain on which two tipsets sit at height 0: \<open>g0\<close> without parents, and \<open>g1\<close>, the
  head, with parent \<open>g0\<close>; the checkpoint \<open>g2\<close> is at height 5.
\<close>

definition lowBlock :: "string \<Rightarrow> ChainEpoch \<Rightarrow> TipSetKey \<Rightarrow> Block" where
  "lowBlock c h ps =
     \<lparr>Cid = CidStr c, Height = h, Parents = ps,
      ParentStateRoot = CidStr ''state'', ParentMessageReceipts = CidStr ''receipts'',
      BeaconEntries = []\<rparr>"

definition lowTs :: "string \<Rightarrow> ChainEpoch \<Rightarrow> TipSetKey \<Rightarrow> TipSet" where
  "lowTs c h ps = \<lparr>blocks = [lowBlock c h ps], key = [CidStr c]\<rparr>"

definition low_source :: ipldSource where
  "low_source =
     \<lparr>cborStore = map_of
        [(CidStr ''g0'', lowBlock ''g0'' 0 []),
         (CidStr ''g1'', lowBlock ''g1'' 0 [CidStr ''g0'']),
         (CidStr ''g2'', lowBlock ''g2'' 5 [CidStr ''g1''])]\<rparr>"

definition low_store :: Store where
  "low_store =
     \<lparr>stateAndBlockSource = low_source,
      ds = \<lparr>entries = (\<lambda>k.
              if k = ''/chain/heaviestTipSet'' then Some (ex_encode [CidStr ''g1''])
              else if take 2 k = ''/g''
              then Some (ex_encode [CidStr ''state'', CidStr ''receipts''])
              else None),
            faulty = {}\<rparr>,
      genesis = CidStr ''g0'',
      head = None,
      checkPoint = [CidStr ''g2''],
      headEvents = [],
      tipIndex = NewTipIndex,
      reporter = \<lparr>validatedHead = [], validatedHeadHeight = 0\<rparr>,
      reorgCh = []\<rparr>"

section \<open>Properties\<close>


subsection \<open>SetHead\<close>

lemma writeHead_Inr:
  "writeHead d store k = Inr store' \<Longrightarrow>
     ds_Get (ds store') (HeadKey d) = Encode_TipSetKey d k \<and> head store' = head store
     \<and> reorgCh store' = reorgCh store"
  by (auto simp: writeHead_def ds_Put_def ds_Get_def split: sum.splits if_splits)

lemma SetHead_locked_update:
  "SetHead_locked d store newTs = Inr ((dropped, added, True), store1) \<Longrightarrow>
     \<exists>store'. writeHead d store (Key newTs) = Inr store' \<and> store1 = store'\<lparr>head := Some newTs\<rparr>
       \<and> \<not> headIs store newTs"
  by (auto simp: SetHead_locked_def headIs_def split: sum.splits option.splits if_splits)

lemma SetHead_locked_noop:
  "SetHead_locked d store newTs = Inr ((dropped, added, False), store1) \<Longrightarrow>
     store1 = store \<and> headIs store newTs"
  by (auto simp: SetHead_locked_def headIs_def split: sum.splits option.splits if_splits)

lemma TipSet_Height_Defined: "TipSet_Height ts = Inr h \<Longrightarrow> Defined ts"
  by (auto simp: TipSet_Height_def Defined_def split: list.splits)

lemma SetHead_ok_update:
  assumes "SetHead d store newTs = (None, store')" and "\<not> headIs store newTs"
  shows "\<exists>dropped added store2 h.
           SetHead_locked d store newTs = Inr ((dropped, added, True), store2\<lparr>head := Some newTs\<rparr>)
         \<and> writeHead d store (Key newTs) = Inr store2
         \<and> TipSet_Height newTs = Inr h
         \<and> store' = store2\<lparr>head := Some newTs,
                            reporter := UpdateStatus (Key newTs) h (reporter store2),
                            reorgCh := reorgCh store2 @
                              [\<lparr>old = Reverse dropped, new = Reverse added\<rparr>]\<rparr>"
proof (cases "SetHead_locked d store newTs")
  case (Inl e)
  with assms(1) show ?thesis by (simp add: SetHead_def)
next
  case (Inr r)
  then obtain dropped added update store1 where
    r: "SetHead_locked d store newTs = Inr ((dropped, added, update), store1)"
    by (cases r) auto
  have u: update
  proof (rule ccontr)
    assume "\<not> update"
    with r have "headIs store newTs" by (simp add: SetHead_locked_noop)
    with assms(2) show False by simp
  qed
  with r have l: "SetHead_locked d store newTs = Inr ((dropped, added, True), store1)" by simp
  from SetHead_locked_update [OF l] obtain store2 where
    w: "writeHead d store (Key newTs) = Inr store2" and s1: "store1 = store2\<lparr>head := Some newTs\<rparr>"
    by blast
  from l assms(1) obtain h where
    h: "TipSet_Height newTs = Inr h"
    and s': "store' = store1\<lparr>reporter := UpdateStatus (Key newTs) h (reporter store1),
               reorgCh := reorgCh store1 @ [\<lparr>old = Reverse dropped, new = Reverse added\<rparr>]\<rparr>"
    by (auto simp: SetHead_def split: sum.splits)
  from l w h s' s1 show ?thesis by simp
qed

lemma SetHead_ok_noop:
  assumes "SetHead d store newTs = (None, store')" and "headIs store newTs"
  shows "store' = store"
  using assms
  by (auto simp: SetHead_def SetHead_locked_def headIs_def split: option.splits)

lemma reorgWorker_loop_headEvents:
  "headEvents (reorgWorker_loop rs store)
     = headEvents store @ map (\<lambda>r. headChangeNotif (old r) (new r)) rs"
  by (induction rs arbitrary: store) (simp_all add: headChangeNotifee_def)

lemma reorgWorker_headEvents:
  "headEvents (reorgWorker store)
     = headEvents store @ map (\<lambda>r. headChangeNotif (old r) (new r)) (reorgCh store)"
  by (simp add: reorgWorker_def reorgWorker_loop_headEvents)

text \<open>
  Claim C1. When \<open>SetHead(new_ts)\<close> returns without error and has changed the head,
  \<open>GetHead()\<close> is \<open>new_ts.Key()\<close> and reading the head slot of the datastore
  (\<open>/chain/heaviestTipSet\<close>) gives exactly the encoding of \<open>new_ts.Key()\<close>.
\<close>

theorem SetHead_installs_head:
  assumes "SetHead d store newTs = (None, store')"
    and "head store' \<noteq> head store"
  shows "GetHead store' = Key newTs \<and>
         ds_Get (ds store') (HeadKey d) = Encode_TipSetKey d (Key newTs)"
proof (cases "headIs store newTs")
  case True
  with assms(1) have "store' = store" by (rule SetHead_ok_noop)
  with assms(2) show ?thesis by simp
next
  case False
  with assms(1) obtain dropped added store2 h where
    w: "writeHead d store (Key newTs) = Inr store2"
    and h: "TipSet_Height newTs = Inr h"
    and s': "store' = store2\<lparr>head := Some newTs,
               reporter := UpdateStatus (Key newTs) h (reporter store2),
               reorgCh := reorgCh store2 @ [\<lparr>old = Reverse dropped, new = Reverse added\<rparr>]\<rparr>"
    using SetHead_ok_update by blast
  from h have "Defined newTs" by (rule TipSet_Height_Defined)
  then have "GetHead store' = Key newTs" by (simp add: GetHead_def s')
  moreover have "ds_Get (ds store') (HeadKey d) = Encode_TipSetKey d (Key newTs)"
    using writeHead_Inr [OF w] by (simp add: s')
  ultimately show ?thesis by simp
qed

theorem SetHead_installs_head_witness:
  "SetHead ex_deps (ex_store_at (mainTs 4)) (forkTs 4)
     = (None, snd (SetHead ex_deps (ex_store_at (mainTs 4)) (forkTs 4)))
   \<and> head (snd (SetHead ex_deps (ex_store_at (mainTs 4)) (forkTs 4))) \<noteq> head (ex_store_at (mainTs 4))
   \<and> GetHead (snd (SetHead ex_deps (ex_store_at (mainTs 4)) (forkTs 4))) = Key (forkTs 4)
   \<and> ds_Get (ds (snd (SetHead ex_deps (ex_store_at (mainTs 4)) (forkTs 4)))) (HeadKey ex_deps)
       = Encode_TipSetKey ex_deps (Key (forkTs 4))"
proof -
  have f: "fst (SetHead ex_deps (ex_store_at (mainTs 4)) (forkTs 4)) = None"
    by code_simp
  have h: "head (snd (SetHead ex_deps (ex_store_at (mainTs 4)) (forkTs 4)))
             \<noteq> head (ex_store_at (mainTs 4))"
    by code_simp
  from f have e: "SetHead ex_deps (ex_store_at (mainTs 4)) (forkTs 4)
     = (None, snd (SetHead ex_deps (ex_store_at (mainTs 4)) (forkTs 4)))"
    by (simp add: prod_eq_iff)
  from e h SetHead_installs_head [OF e h] show ?thesis by simp
qed


text \<open>
  Claim C3. If persisting the new head key fails, \<open>SetHead\<close> returns an error and the
  in-memory head is still the previous head; and if the reorg computation fails,
  \<open>SetHead\<close> returns that error and leaves the whole store, so the in-memory head and
  the persisted head slot, as it was. (Persisting is attempted when the head is not
  already \<open>new_ts\<close>; the only step before it that can fail is the reorg computation.)
\<close>

theorem SetHead_failure_keeps_head:
  "(\<not> headIs store newTs \<and> writeHead d store (Key newTs) = Inl e
      \<longrightarrow> fst (SetHead d store newTs) \<noteq> None
          \<and> head (snd (SetHead d store newTs)) = head store)
   \<and> (head store = Some oldHead \<and> \<not> Equals oldHead newTs
        \<and> CollectTipsToCommonAncestor d store oldHead newTs = Inl e'
      \<longrightarrow> SetHead d store newTs = (Some e', store))"
  by (auto simp: SetHead_def SetHead_locked_def headIs_def split: sum.splits option.splits)

theorem SetHead_failure_keeps_head_witness:
  "\<not> headIs ex_store_faulty (mainTs 4)
   \<and> writeHead ex_deps ex_store_faulty (Key (mainTs 4)) = Inl (ErrDatastore ''/chain/heaviestTipSet'')
   \<and> fst (SetHead ex_deps ex_store_faulty (mainTs 4)) \<noteq> None
   \<and> head (snd (SetHead ex_deps ex_store_faulty (mainTs 4))) = head ex_store_faulty
   \<and> head (ex_store_at (mainTs 4)) = Some (mainTs 4)
   \<and> \<not> Equals (mainTs 4) orphanTs
   \<and> CollectTipsToCommonAncestor ex_deps (ex_store_at (mainTs 4)) (mainTs 4) orphanTs
        = Inl ErrNoCommonAncestor
   \<and> SetHead ex_deps (ex_store_at (mainTs 4)) orphanTs
        = (Some ErrNoCommonAncestor, ex_store_at (mainTs 4))"
proof -
  have a1: "\<not> headIs ex_store_faulty (mainTs 4)"
    by (simp add: headIs_def ex_store_faulty_def ex_store_def)
  have a2: "writeHead ex_deps ex_store_faulty (Key (mainTs 4))
              = Inl (ErrDatastore ''/chain/heaviestTipSet'')"
    by (simp add: writeHead_def ex_deps_def ex_store_faulty_def ds_Put_def HeadKey_def)
  have b1: "head (ex_store_at (mainTs 4)) = Some (mainTs 4)"
    by (simp add: ex_store_at_def)
  have b2: "\<not> Equals (mainTs 4) orphanTs"
    by (simp add: Equals_def mainTs_def orphanTs_def mainCid_def)
  have b3: "CollectTipsToCommonAncestor ex_deps (ex_store_at (mainTs 4)) (mainTs 4) orphanTs
              = Inl ErrNoCommonAncestor"
    by code_simp
  from a1 a2
    SetHead_failure_keeps_head [where store = ex_store_faulty and newTs = "mainTs 4"
      and d = ex_deps and e = "ErrDatastore ''/chain/heaviestTipSet''"]
  have a3: "fst (SetHead ex_deps ex_store_faulty (mainTs 4)) \<noteq> None
            \<and> head (snd (SetHead ex_deps ex_store_faulty (mainTs 4))) = head ex_store_faulty"
    by blast
  from b1 b2 b3
    SetHead_failure_keeps_head [where store = "ex_store_at (mainTs 4)" and newTs = orphanTs
      and d = ex_deps and oldHead = "mainTs 4" and e' = ErrNoCommonAncestor]
  have b4: "SetHead ex_deps (ex_store_at (mainTs 4)) orphanTs
              = (Some ErrNoCommonAncestor, ex_store_at (mainTs 4))"
    by blast
  from a1 a2 a3 b1 b2 b3 b4 show ?thesis by simp
qed





subsection \<open>The reorg batch\<close>

lemma oldest_first_successively:
  "oldest_first get xs = successively (\<lambda>a b. parent_tipset get b = Inr a) xs"
  by (induction get xs rule: oldest_first.induct) simp_all

lemma oldest_first_rev:
  "oldest_first get (rev xs) = successively (\<lambda>a b. parent_tipset get a = Inr b) xs"
  by (simp add: oldest_first_successively)

lemma collect_linked:
  assumes "collect_to_common_ancestor n get ol nw dropped added = Some (Inr (dr, ad))"
    and "successively (\<lambda>a b. parent_tipset get a = Inr b) (dropped @ [ol])"
    and "successively (\<lambda>a b. parent_tipset get a = Inr b) (added @ [nw])"
  shows "successively (\<lambda>a b. parent_tipset get a = Inr b) dr
         \<and> successively (\<lambda>a b. parent_tipset get a = Inr b) ad"
  using assms
proof (induction n arbitrary: ol nw dropped added)
  case 0
  then show ?case by simp
next
  case (Suc n)
  let ?L = "successively (\<lambda>a b. parent_tipset get a = Inr b)"
  have ext: "?L (xs @ [x, y])" if "?L (xs @ [x])" "parent_tipset get x = Inr y" for xs x y
    using that by (auto simp: successively_append_iff)
  have pre: "?L xs" if "?L (xs @ [x])" for xs x
    using that by (auto simp: successively_append_iff)
  show ?case
  proof (cases "Key ol = Key nw")
    case True
    with Suc.prems show ?thesis by (auto dest: pre)
  next
    case False
    from Suc.prems(1) False obtain ho hn where
      ho: "TipSet_Height ol = Inr ho" and hn: "TipSet_Height nw = Inr hn"
      by (auto split: sum.splits)
    consider (oldside) "hn <s ho" | (newside) "\<not> hn <s ho" "ho <s hn"
      | (tie) "\<not> hn <s ho" "\<not> ho <s hn"
      by blast
    then show ?thesis
    proof cases
      case oldside
      with Suc.prems(1) False ho hn obtain ol' where
        p: "parent_tipset get ol = Inr ol'"
        and r: "collect_to_common_ancestor n get ol' nw (dropped @ [ol]) added = Some (Inr (dr, ad))"
        by (auto split: sum.splits)
      from Suc.prems(2) p have "?L ((dropped @ [ol]) @ [ol'])" by (simp add: ext)
      with Suc.IH [OF r] Suc.prems(3) show ?thesis by simp
    next
      case newside
      with Suc.prems(1) False ho hn obtain nw' where
        p: "parent_tipset get nw = Inr nw'"
        and r: "collect_to_common_ancestor n get ol nw' dropped (added @ [nw]) = Some (Inr (dr, ad))"
        by (auto split: sum.splits)
      from Suc.prems(3) p have "?L ((added @ [nw]) @ [nw'])" by (simp add: ext)
      with Suc.IH [OF r] Suc.prems(2) show ?thesis by simp
    next
      case tie
      with Suc.prems(1) False ho hn obtain ol' nw' where
        po: "parent_tipset get ol = Inr ol'" and pn: "parent_tipset get nw = Inr nw'"
        and r: "collect_to_common_ancestor n get ol' nw' (dropped @ [ol]) (added @ [nw])
                  = Some (Inr (dr, ad))"
        by (auto split: sum.splits)
      from Suc.prems(2) po have "?L ((dropped @ [ol]) @ [ol'])" by (simp add: ext)
      moreover from Suc.prems(3) pn have "?L ((added @ [nw]) @ [nw'])" by (simp add: ext)
      ultimately show ?thesis using Suc.IH [OF r] by simp
    qed
  qed
qed

lemma reverts_then_applies_applies:
  "reverts_then_applies (map (\<lambda>t. \<lparr>Type = HCApply, Val = t\<rparr>) app)"
  by (cases app) (simp_all add: list_all_iff)

lemma reverts_then_applies_notif: "reverts_then_applies (headChangeNotif rv app)"
  unfolding headChangeNotif_def
  by (induction rv) (simp_all add: reverts_then_applies_applies)

lemma reverts_of_notif:
  "map Val (filter (\<lambda>c. Type c = HCRevert) (headChangeNotif rv app)) = rv"
  by (simp add: headChangeNotif_def filter_map comp_def)

lemma applies_of_notif:
  "map Val (filter (\<lambda>c. Type c = HCApply) (headChangeNotif rv app)) = app"
  by (simp add: headChangeNotif_def filter_map comp_def)

text \<open>
  Claim C2. After a \<open>SetHead\<close> call that emits a notification, the worker publishes
  one batch more than it would have without the call; in that batch every revert entry
  comes before every apply entry, and the tipsets of each of the two subsequences are
  oldest first: each is the parent tipset of the next, so the order ascends along the
  walk from the common ancestor. The reorg computation is taken to walk as section 4.5
  describes.
\<close>

theorem SetHead_batch_ordered:
  assumes "SetHead d store newTs = (None, store')"
    and "reorgCh store' \<noteq> reorgCh store"
    and "collect_as_specified n d store newTs"
  shows "headEvents (reorgWorker store')
           = headEvents (reorgWorker store) @ [last (headEvents (reorgWorker store'))]
         \<and> reverts_then_applies (last (headEvents (reorgWorker store')))
         \<and> oldest_first (GetTipSet d store)
             (map Val (filter (\<lambda>c. Type c = HCRevert) (last (headEvents (reorgWorker store')))))
         \<and> oldest_first (GetTipSet d store)
             (map Val (filter (\<lambda>c. Type c = HCApply) (last (headEvents (reorgWorker store')))))"
proof -
  let ?L = "successively (\<lambda>a b. parent_tipset (GetTipSet d store) a = Inr b)"
  have n: "\<not> headIs store newTs"
  proof
    assume "headIs store newTs"
    with assms(1) have "store' = store" by (rule SetHead_ok_noop)
    with assms(2) show False by simp
  qed
  with assms(1) obtain dropped added store2 h where
    l: "SetHead_locked d store newTs = Inr ((dropped, added, True), store2\<lparr>head := Some newTs\<rparr>)"
    and w: "writeHead d store (Key newTs) = Inr store2"
    and s': "store' = store2\<lparr>head := Some newTs,
               reporter := UpdateStatus (Key newTs) h (reporter store2),
               reorgCh := reorgCh store2 @ [\<lparr>old = Reverse dropped, new = Reverse added\<rparr>]\<rparr>"
    using SetHead_ok_update by blast
  have ch: "reorgCh store' = reorgCh store @ [\<lparr>old = Reverse dropped, new = Reverse added\<rparr>]"
    using writeHead_Inr [OF w] by (simp add: s')
  have "headEvents store2 = headEvents store"
    using w by (auto simp: writeHead_def split: sum.splits)
  then have he: "headEvents store' = headEvents store" by (simp add: s')
  have linked: "?L dropped \<and> ?L added"
  proof (cases "head store")
    case None
    with l show ?thesis by (auto simp: SetHead_locked_def split: sum.splits)
  next
    case (Some oldHead)
    with l have c: "CollectTipsToCommonAncestor d store oldHead newTs = Inr (dropped, added)"
      by (auto simp: SetHead_locked_def split: sum.splits if_splits)
    from assms(3) Some c have
      "collect_to_common_ancestor n (GetTipSet d store) oldHead newTs [] [] = Some (Inr (dropped, added))"
      by (simp add: collect_as_specified_def)
    then show ?thesis by (rule collect_linked) simp_all
  qed
  have ev: "headEvents (reorgWorker store')
              = headEvents (reorgWorker store) @ [headChangeNotif (Reverse dropped) (Reverse added)]"
    by (simp add: reorgWorker_headEvents ch he)
  then have la: "last (headEvents (reorgWorker store'))
                   = headChangeNotif (Reverse dropped) (Reverse added)"
    by simp
  show ?thesis
    using linked ev
    by (simp add: la reverts_then_applies_notif reverts_of_notif applies_of_notif
        Reverse_def oldest_first_rev)
qed

theorem SetHead_batch_ordered_witness:
  "SetHead ex_deps (ex_store_at (mainTs 4)) (forkTs 4)
     = (None, snd (SetHead ex_deps (ex_store_at (mainTs 4)) (forkTs 4)))
   \<and> reorgCh (snd (SetHead ex_deps (ex_store_at (mainTs 4)) (forkTs 4)))
       \<noteq> reorgCh (ex_store_at (mainTs 4))
   \<and> collect_as_specified 100 ex_deps (ex_store_at (mainTs 4)) (forkTs 4)
   \<and> last (headEvents (reorgWorker (snd (SetHead ex_deps (ex_store_at (mainTs 4)) (forkTs 4)))))
       = [\<lparr>Type = HCRevert, Val = mainTs 3\<rparr>, \<lparr>Type = HCRevert, Val = mainTs 4\<rparr>,
          \<lparr>Type = HCApply, Val = forkTs 3\<rparr>, \<lparr>Type = HCApply, Val = forkTs 4\<rparr>]
   \<and> headEvents (reorgWorker (snd (SetHead ex_deps (ex_store_at (mainTs 4)) (forkTs 4))))
       = headEvents (reorgWorker (ex_store_at (mainTs 4)))
         @ [last (headEvents (reorgWorker (snd (SetHead ex_deps (ex_store_at (mainTs 4)) (forkTs 4)))))]
   \<and> reverts_then_applies
        (last (headEvents (reorgWorker (snd (SetHead ex_deps (ex_store_at (mainTs 4)) (forkTs 4))))))
   \<and> oldest_first (GetTipSet ex_deps (ex_store_at (mainTs 4)))
        (map Val (filter (\<lambda>c. Type c = HCRevert)
           (last (headEvents (reorgWorker (snd (SetHead ex_deps (ex_store_at (mainTs 4)) (forkTs 4))))))))
   \<and> oldest_first (GetTipSet ex_deps (ex_store_at (mainTs 4)))
        (map Val (filter (\<lambda>c. Type c = HCApply)
           (last (headEvents (reorgWorker (snd (SetHead ex_deps (ex_store_at (mainTs 4)) (forkTs 4))))))))"
proof -
  have f: "fst (SetHead ex_deps (ex_store_at (mainTs 4)) (forkTs 4)) = None"
    by code_simp
  then have e: "SetHead ex_deps (ex_store_at (mainTs 4)) (forkTs 4)
     = (None, snd (SetHead ex_deps (ex_store_at (mainTs 4)) (forkTs 4)))"
    by (simp add: prod_eq_iff)
  have c: "reorgCh (snd (SetHead ex_deps (ex_store_at (mainTs 4)) (forkTs 4)))
       \<noteq> reorgCh (ex_store_at (mainTs 4))"
    by code_simp
  have s: "collect_as_specified 100 ex_deps (ex_store_at (mainTs 4)) (forkTs 4)"
    by code_simp
  have b: "last (headEvents (reorgWorker (snd (SetHead ex_deps (ex_store_at (mainTs 4)) (forkTs 4)))))
       = [\<lparr>Type = HCRevert, Val = mainTs 3\<rparr>, \<lparr>Type = HCRevert, Val = mainTs 4\<rparr>,
          \<lparr>Type = HCApply, Val = forkTs 3\<rparr>, \<lparr>Type = HCApply, Val = forkTs 4\<rparr>]"
    by code_simp
  from e c s b SetHead_batch_ordered [OF e c s] show ?thesis by blast
qed

subsection \<open>Per-tipset metadata and the checkpoint\<close>

lemma TipIndex_Put_Defined:
  "Defined (TipSet tsm) \<Longrightarrow>
     \<exists>ti'. TipIndex_Put ti tsm = Inr ti' \<and> byKey ti' (Key (TipSet tsm)) = Some tsm"
  by (cases "blocks (TipSet tsm)")
     (simp_all add: TipIndex_Put_def Defined_def TipSet_Parents_def TipSet_Height_def)

lemma writeTipSetMetadata_Undef:
  "TipSetStateRoot tsm = Undef \<or> TipSetReceipts tsm = Undef \<Longrightarrow>
     writeTipSetMetadata d store tsm
       = Inl (if TipSetStateRoot tsm = Undef then ErrStateRootUndef else ErrReceiptsUndef)"
  by (auto simp: writeTipSetMetadata_def)

text \<open>
  Claim C7. With an undefined \<open>stateRoot\<close> or \<open>receiptsRoot\<close>, \<open>PutTipSetMetadata\<close>
  returns an error and leaves the datastore as it was, so the per-tipset slot is not
  written. With both roots defined, a call that returns nil has put the encoding of
  the pair \<open>(stateRoot, receiptsRoot)\<close> in the slot of the tipset; and the call does
  return nil when the tipset is defined, the pair encodes and the datastore takes the
  write.
\<close>

theorem PutTipSetMetadata_checks_roots:
  "(TipSetStateRoot tsm = Undef \<or> TipSetReceipts tsm = Undef
      \<longrightarrow> fst (PutTipSetMetadata d store tsm) \<noteq> None
          \<and> ds (snd (PutTipSetMetadata d store tsm)) = ds store)
   \<and> (TipSetStateRoot tsm \<noteq> Undef \<and> TipSetReceipts tsm \<noteq> Undef
        \<and> fst (PutTipSetMetadata d store tsm) = None
      \<longrightarrow> (\<exists>h. TipSet_Height (TipSet tsm) = Inr h
            \<and> ds_Get (ds (snd (PutTipSetMetadata d store tsm))) (metaKey d (TipSet tsm) h)
                = Encode_tsState d
                    \<lparr>StateRoot = TipSetStateRoot tsm, Reciepts = TipSetReceipts tsm\<rparr>))
   \<and> (TipSetStateRoot tsm \<noteq> Undef \<and> TipSetReceipts tsm \<noteq> Undef
        \<and> TipSet_Height (TipSet tsm) = Inr h'
        \<and> Encode_tsState d \<lparr>StateRoot = TipSetStateRoot tsm, Reciepts = TipSetReceipts tsm\<rparr>
             = Inr val
        \<and> metaKey d (TipSet tsm) h' \<notin> faulty (ds store)
      \<longrightarrow> fst (PutTipSetMetadata d store tsm) = None)"
proof (intro conjI impI)
  assume u: "TipSetStateRoot tsm = Undef \<or> TipSetReceipts tsm = Undef"
  show "fst (PutTipSetMetadata d store tsm) \<noteq> None"
    by (simp add: PutTipSetMetadata_def writeTipSetMetadata_Undef [OF u] split: sum.splits)
  show "ds (snd (PutTipSetMetadata d store tsm)) = ds store"
    by (simp add: PutTipSetMetadata_def writeTipSetMetadata_Undef [OF u] split: sum.splits)
next
  assume "TipSetStateRoot tsm \<noteq> Undef \<and> TipSetReceipts tsm \<noteq> Undef
            \<and> fst (PutTipSetMetadata d store tsm) = None"
  then show "\<exists>h. TipSet_Height (TipSet tsm) = Inr h
            \<and> ds_Get (ds (snd (PutTipSetMetadata d store tsm))) (metaKey d (TipSet tsm) h)
                = Encode_tsState d
                    \<lparr>StateRoot = TipSetStateRoot tsm, Reciepts = TipSetReceipts tsm\<rparr>"
    by (auto simp: PutTipSetMetadata_def writeTipSetMetadata_def ds_Put_def ds_Get_def
        split: sum.splits if_splits)
next
  assume a: "TipSetStateRoot tsm \<noteq> Undef \<and> TipSetReceipts tsm \<noteq> Undef
        \<and> TipSet_Height (TipSet tsm) = Inr h'
        \<and> Encode_tsState d \<lparr>StateRoot = TipSetStateRoot tsm, Reciepts = TipSetReceipts tsm\<rparr>
             = Inr val
        \<and> metaKey d (TipSet tsm) h' \<notin> faulty (ds store)"
  then have "Defined (TipSet tsm)" by (simp add: TipSet_Height_Defined)
  from TipIndex_Put_Defined [OF this] obtain ti' where
    "TipIndex_Put (tipIndex store) tsm = Inr ti'" by blast
  with a show "fst (PutTipSetMetadata d store tsm) = None"
    by (simp add: PutTipSetMetadata_def writeTipSetMetadata_def ds_Put_def)
qed

theorem PutTipSetMetadata_checks_roots_witness:
  "(TipSetStateRoot ex_meta_undef = Undef \<or> TipSetReceipts ex_meta_undef = Undef)
   \<and> fst (PutTipSetMetadata ex_deps ex_store ex_meta_undef) \<noteq> None
   \<and> ds (snd (PutTipSetMetadata ex_deps ex_store ex_meta_undef)) = ds ex_store
   \<and> TipSetStateRoot ex_meta_ok \<noteq> Undef \<and> TipSetReceipts ex_meta_ok \<noteq> Undef
   \<and> TipSet_Height (TipSet ex_meta_ok) = Inr 4
   \<and> Encode_tsState ex_deps
        \<lparr>StateRoot = TipSetStateRoot ex_meta_ok, Reciepts = TipSetReceipts ex_meta_ok\<rparr>
       = Inr (ex_encode [CidStr ''state'', CidStr ''receipts''])
   \<and> metaKey ex_deps (TipSet ex_meta_ok) 4 \<notin> faulty (ds ex_store)
   \<and> fst (PutTipSetMetadata ex_deps ex_store ex_meta_ok) = None
   \<and> ds_Get (ds (snd (PutTipSetMetadata ex_deps ex_store ex_meta_ok)))
        (metaKey ex_deps (TipSet ex_meta_ok) 4)
       = Inr (ex_encode [CidStr ''state'', CidStr ''receipts''])"
proof -
  have u: "TipSetStateRoot ex_meta_undef = Undef \<or> TipSetReceipts ex_meta_undef = Undef"
    by (simp add: ex_meta_undef_def)
  have r: "TipSetStateRoot ex_meta_ok \<noteq> Undef \<and> TipSetReceipts ex_meta_ok \<noteq> Undef"
    by (simp add: ex_meta_ok_def Undef_def)
  have h: "TipSet_Height (TipSet ex_meta_ok) = Inr 4"
    by (simp add: ex_meta_ok_def mainTs_def TipSet_Height_def mainBlock_def)
  have e: "Encode_tsState ex_deps
        \<lparr>StateRoot = TipSetStateRoot ex_meta_ok, Reciepts = TipSetReceipts ex_meta_ok\<rparr>
       = Inr (ex_encode [CidStr ''state'', CidStr ''receipts''])"
    by (simp add: ex_deps_def ex_meta_ok_def)
  have k: "metaKey ex_deps (TipSet ex_meta_ok) 4 \<notin> faulty (ds ex_store)"
    by (simp add: ex_store_def)
  from u PutTipSetMetadata_checks_roots [where tsm = ex_meta_undef and d = ex_deps and store = ex_store]
  have 1: "fst (PutTipSetMetadata ex_deps ex_store ex_meta_undef) \<noteq> None
           \<and> ds (snd (PutTipSetMetadata ex_deps ex_store ex_meta_undef)) = ds ex_store"
    by blast
  from r h e k
    PutTipSetMetadata_checks_roots [where tsm = ex_meta_ok and d = ex_deps and store = ex_store
      and h' = 4 and val = "ex_encode [CidStr ''state'', CidStr ''receipts'']"]
  have 2: "fst (PutTipSetMetadata ex_deps ex_store ex_meta_ok) = None"
    by blast
  from r 2 h e
    PutTipSetMetadata_checks_roots [where tsm = ex_meta_ok and d = ex_deps and store = ex_store]
  have 3: "ds_Get (ds (snd (PutTipSetMetadata ex_deps ex_store ex_meta_ok)))
             (metaKey ex_deps (TipSet ex_meta_ok) 4)
           = Inr (ex_encode [CidStr ''state'', CidStr ''receipts''])"
    by auto
  from u r h e k 1 2 3 show ?thesis by blast
qed

text \<open>
  Claim C9. For a defined tipset whose metadata has an undefined \<open>stateRoot\<close> or
  \<open>receiptsRoot\<close>, \<open>PutTipSetMetadata\<close> returns an error and yet the entry is in the
  in-memory tip index afterwards (\<open>HasTipSetAndState\<close> on its key is true): the index is
  updated before the datastore write that checks the roots.
\<close>

theorem PutTipSetMetadata_error_keeps_index_entry:
  assumes "TipSetStateRoot tsm = Undef \<or> TipSetReceipts tsm = Undef"
    and "Defined (TipSet tsm)"
  shows "fst (PutTipSetMetadata d store tsm) \<noteq> None
         \<and> HasTipSetAndState (snd (PutTipSetMetadata d store tsm)) (Key (TipSet tsm))"
proof -
  from TipIndex_Put_Defined [OF assms(2)] obtain ti' where
    p: "TipIndex_Put (tipIndex store) tsm = Inr ti'" and k: "byKey ti' (Key (TipSet tsm)) = Some tsm"
    by blast
  from p k show ?thesis
    by (simp add: PutTipSetMetadata_def HasTipSetAndState_def TipIndex_Has_def
        writeTipSetMetadata_Undef [OF assms(1)])
qed


theorem PutTipSetMetadata_error_keeps_index_entry_witness:
  "(TipSetStateRoot ex_meta_undef = Undef \<or> TipSetReceipts ex_meta_undef = Undef)
   \<and> Defined (TipSet ex_meta_undef)
   \<and> \<not> HasTipSetAndState ex_store (Key (TipSet ex_meta_undef))
   \<and> fst (PutTipSetMetadata ex_deps ex_store ex_meta_undef) \<noteq> None
   \<and> HasTipSetAndState (snd (PutTipSetMetadata ex_deps ex_store ex_meta_undef))
        (Key (TipSet ex_meta_undef))"
proof -
  have u: "TipSetStateRoot ex_meta_undef = Undef \<or> TipSetReceipts ex_meta_undef = Undef"
    by (simp add: ex_meta_undef_def)
  have d: "Defined (TipSet ex_meta_undef)"
    by (simp add: ex_meta_undef_def mainTs_def Defined_def)
  have n: "\<not> HasTipSetAndState ex_store (Key (TipSet ex_meta_undef))"
    by (simp add: HasTipSetAndState_def TipIndex_Has_def ex_store_def NewTipIndex_def)
  from u d n PutTipSetMetadata_error_keeps_index_entry [OF u d, of ex_deps ex_store]
  show ?thesis by blast
qed

lemma SetHead_checkPoint: "checkPoint (snd (SetHead d store t)) = checkPoint store"
  by (auto simp: SetHead_def SetHead_locked_def writeHead_def
      split: sum.splits option.splits prod.splits)

lemma PutTipSetMetadata_checkPoint:
  "checkPoint (snd (PutTipSetMetadata d store tsm)) = checkPoint store"
  by (auto simp: PutTipSetMetadata_def writeTipSetMetadata_def split: sum.splits)

lemma DelTipSetMetadata_checkPoint:
  "checkPoint (snd (DelTipSetMetadata d store ts)) = checkPoint store"
  by (auto simp: DelTipSetMetadata_def deleteTipSetMetadata_def split: sum.splits)

lemma reorgWorker_loop_checkPoint:
  "checkPoint (reorgWorker_loop rs store) = checkPoint store"
  by (induction rs arbitrary: store) (simp_all add: headChangeNotifee_def)

lemma loadLoop_checkPoint:
  "loadLoop d n source lb it err store = Some r \<Longrightarrow> checkPoint (snd r) = checkPoint store"
proof (induction n arbitrary: it err store)
  case 0
  then show ?case by simp
next
  case (Suc n)
  have P: "checkPoint s1 = checkPoint store" if "PutTipSetMetadata d store tsm = (e, s1)"
    for tsm e s1
    using that PutTipSetMetadata_checkPoint [of d store tsm] by simp
  from Suc.prems show ?case
    by (auto simp: PutTipSetMetadata_checkPoint
        split: if_splits option.splits sum.splits prod.splits dest!: Suc.IH P)
qed

lemma Load_checkPoint:
  "Load d n store = Some r \<Longrightarrow> checkPoint (snd r) = checkPoint store"
  by (auto simp: Load_def Let_def SetHead_checkPoint
      split: sum.splits option.splits prod.splits dest!: loadLoop_checkPoint)

text \<open>
  Claim C10. \<open>WriteCheckPoint(k)\<close> leaves the in-memory checkpoint as it was, so
  \<open>GetCheckPoint\<close> still returns the previous value, and when it returns nil the
  checkpoint slot of the datastore holds the encoding of \<open>k\<close>. \<open>SetCheckPoint(k)\<close>
  makes \<open>GetCheckPoint\<close> return \<open>k\<close> and leaves the datastore as it was. The other
  operations that change the store (\<open>SetHead\<close>, \<open>PutTipSetMetadata\<close>,
  \<open>DelTipSetMetadata\<close>, the reorg worker, \<open>Load\<close>) leave the value of
  \<open>GetCheckPoint\<close> as it was.
\<close>

theorem checkpoint_memory_and_disk:
  "GetCheckPoint (snd (WriteCheckPoint d store k)) = GetCheckPoint store
   \<and> (fst (WriteCheckPoint d store k) = None
        \<longrightarrow> ds_Get (ds (snd (WriteCheckPoint d store k))) (CheckPoint d) = Encode_TipSetKey d k)
   \<and> GetCheckPoint (SetCheckPoint store k) = k
   \<and> ds (SetCheckPoint store k) = ds store
   \<and> GetCheckPoint (snd (SetHead d store t)) = GetCheckPoint store
   \<and> GetCheckPoint (snd (PutTipSetMetadata d store tsm)) = GetCheckPoint store
   \<and> GetCheckPoint (snd (DelTipSetMetadata d store t)) = GetCheckPoint store
   \<and> GetCheckPoint (reorgWorker store) = GetCheckPoint store
   \<and> (Load d n store = Some r \<longrightarrow> GetCheckPoint (snd r) = GetCheckPoint store)"
proof -
  have "GetCheckPoint (snd (WriteCheckPoint d store k)) = GetCheckPoint store"
    by (simp add: WriteCheckPoint_def GetCheckPoint_def split: sum.splits)
  moreover have "fst (WriteCheckPoint d store k) = None
        \<longrightarrow> ds_Get (ds (snd (WriteCheckPoint d store k))) (CheckPoint d) = Encode_TipSetKey d k"
    by (auto simp: WriteCheckPoint_def ds_Put_def ds_Get_def split: sum.splits if_splits)
  moreover have "GetCheckPoint (SetCheckPoint store k) = k \<and> ds (SetCheckPoint store k) = ds store"
    by (simp add: SetCheckPoint_def GetCheckPoint_def)
  moreover have "GetCheckPoint (reorgWorker store) = GetCheckPoint store"
    by (simp add: GetCheckPoint_def reorgWorker_def reorgWorker_loop_checkPoint)
  ultimately show ?thesis
    by (simp add: GetCheckPoint_def SetHead_checkPoint PutTipSetMetadata_checkPoint
        DelTipSetMetadata_checkPoint Load_checkPoint)
qed

theorem checkpoint_memory_and_disk_witness:
  "GetCheckPoint ex_store = [mainCid 0]
   \<and> fst (WriteCheckPoint ex_deps ex_store [mainCid 7]) = None
   \<and> GetCheckPoint (snd (WriteCheckPoint ex_deps ex_store [mainCid 7])) = [mainCid 0]
   \<and> ds_Get (ds (snd (WriteCheckPoint ex_deps ex_store [mainCid 7]))) (CheckPoint ex_deps)
       = Encode_TipSetKey ex_deps [mainCid 7]
   \<and> GetCheckPoint (SetCheckPoint ex_store [mainCid 7]) = [mainCid 7]
   \<and> ds (SetCheckPoint ex_store [mainCid 7]) = ds ex_store
   \<and> Load ex_deps 6 ex_store_disk = Some (None, snd (the (Load ex_deps 6 ex_store_disk)))
   \<and> GetCheckPoint (snd (the (Load ex_deps 6 ex_store_disk))) = GetCheckPoint ex_store_disk"
proof -
  have g: "GetCheckPoint ex_store = [mainCid 0]"
    by (simp add: GetCheckPoint_def ex_store_def)
  have f: "fst (WriteCheckPoint ex_deps ex_store [mainCid 7]) = None"
    by (simp add: WriteCheckPoint_def ex_deps_def ex_store_def ds_Put_def)
  have "map_option fst (Load ex_deps 6 ex_store_disk) = Some None"
    by code_simp
  then have l: "Load ex_deps 6 ex_store_disk
                  = Some (None, snd (the (Load ex_deps 6 ex_store_disk)))"
    by (cases "Load ex_deps 6 ex_store_disk") (auto simp: prod_eq_iff)
  from g f checkpoint_memory_and_disk [of ex_deps ex_store "[mainCid 7]"]
  have 1: "GetCheckPoint (snd (WriteCheckPoint ex_deps ex_store [mainCid 7])) = [mainCid 0]
   \<and> ds_Get (ds (snd (WriteCheckPoint ex_deps ex_store [mainCid 7]))) (CheckPoint ex_deps)
       = Encode_TipSetKey ex_deps [mainCid 7]
   \<and> GetCheckPoint (SetCheckPoint ex_store [mainCid 7]) = [mainCid 7]
   \<and> ds (SetCheckPoint ex_store [mainCid 7]) = ds ex_store"
    by simp
  from l checkpoint_memory_and_disk [where d = ex_deps and store = ex_store_disk and n = 6
      and r = "(None, snd (the (Load ex_deps 6 ex_store_disk)))"]
  have 2: "GetCheckPoint (snd (the (Load ex_deps 6 ex_store_disk))) = GetCheckPoint ex_store_disk"
    by simp
  from g f l 1 2 show ?thesis by blast
qed


subsection \<open>Ancestor queries\<close>

lemma EnsureHeight_Inr: "TipSet_Height ts = Inr h \<Longrightarrow> EnsureHeight ts = Inr h"
  by (simp add: EnsureHeight_def)

lemma EnsureParents_Inr: "TipSet_Parents ts = Inr k \<Longrightarrow> EnsureParents ts = Inr k"
  by (simp add: EnsureParents_def)

text \<open>
  Claim C6. For a tipset \<open>from\<close> of height \<open>hf\<close>: \<open>GetTipSetByHeight(from, h, prev)\<close>
  is an error when \<open>h\<close> is above \<open>hf\<close>, and is \<open>from\<close> when \<open>h\<close> is \<open>hf\<close>; otherwise,
  when the walk lands on a tipset whose height is above \<open>h\<close> (null blocks), the result
  is that tipset if \<open>prev\<close> is false and the tipset of its parents if \<open>prev\<close> is true.
\<close>

theorem GetTipSetByHeight_cases:
  assumes "TipSet_Height from = Inr hf"
  shows "(hf <s h \<longrightarrow> GetTipSetByHeight d store (Some from) h prev = Inl ErrHeightGreater)
   \<and> (h = hf \<longrightarrow> GetTipSetByHeight d store (Some from) h prev = Inr from)
   \<and> (h <s hf \<and> chainIndex_lookup d store from h = Inr lbts
        \<and> TipSet_Height lbts = Inr hl \<and> h <s hl \<and> TipSet_Parents lbts = Inr pk
      \<longrightarrow> GetTipSetByHeight d store (Some from) h prev
            = (if prev then GetTipSet d store pk else Inr lbts))"
proof (intro conjI impI)
  assume "hf <s h"
  with assms show "GetTipSetByHeight d store (Some from) h prev = Inl ErrHeightGreater"
    by (simp add: GetTipSetByHeight_def EnsureHeight_Inr)
next
  assume "h = hf"
  with assms show "GetTipSetByHeight d store (Some from) h prev = Inr from"
    by (simp add: GetTipSetByHeight_def EnsureHeight_Inr)
next
  assume a: "h <s hf \<and> chainIndex_lookup d store from h = Inr lbts
        \<and> TipSet_Height lbts = Inr hl \<and> h <s hl \<and> TipSet_Parents lbts = Inr pk"
  then have "\<not> hf <s h" and "h \<noteq> hf" and "hl \<noteq> h"
    by (auto simp: word_sless_alt)
  with a assms show "GetTipSetByHeight d store (Some from) h prev
            = (if prev then GetTipSet d store pk else Inr lbts)"
    by (simp add: GetTipSetByHeight_def EnsureHeight_Inr EnsureParents_Inr)
qed

lemma ex_get_main: "i \<le> 60 \<Longrightarrow> ex_get ex_store [mainCid i] = Inr (mainTs i)"
  by (simp add: ex_get_def ex_store_def ex_source_def GetBlock_def mainCid_def
      ex_NewTipSet_def mainTs_def mainBlock_def)

lemma GetTipSet_ex: "GetTipSet ex_deps store k = ex_get store k"
  by (simp add: GetTipSet_def ex_get_def ex_deps_def split: sum.splits)

theorem GetTipSetByHeight_cases_witness:
  "TipSet_Height (mainTs 36) = Inr 37
   \<and> (37 :: ChainEpoch) <s 40
   \<and> GetTipSetByHeight ex_deps ex_store (Some (mainTs 36)) 40 False = Inl ErrHeightGreater
   \<and> GetTipSetByHeight ex_deps ex_store (Some (mainTs 36)) 37 False = Inr (mainTs 36)
   \<and> (35 :: ChainEpoch) <s 37
   \<and> chainIndex_lookup ex_deps ex_store (mainTs 36) 35 = Inr (mainTs 35)
   \<and> TipSet_Height (mainTs 35) = Inr 36
   \<and> (35 :: ChainEpoch) <s 36
   \<and> TipSet_Parents (mainTs 35) = Inr [mainCid 34]
   \<and> GetTipSetByHeight ex_deps ex_store (Some (mainTs 36)) 35 False = Inr (mainTs 35)
   \<and> GetTipSetByHeight ex_deps ex_store (Some (mainTs 36)) 35 True = Inr (mainTs 34)"
proof -
  have hf: "TipSet_Height (mainTs 36) = Inr 37"
    by (simp add: TipSet_Height_def mainTs_def mainBlock_def)
  have c1: "(37 :: ChainEpoch) <s 40" and c2: "(35 :: ChainEpoch) <s 37"
    and c3: "(35 :: ChainEpoch) <s 36"
    by (simp_all add: word_sless_alt)
  have lk: "chainIndex_lookup ex_deps ex_store (mainTs 36) 35 = Inr (mainTs 35)"
    by code_simp
  have hl: "TipSet_Height (mainTs 35) = Inr 36"
    by (simp add: TipSet_Height_def mainTs_def mainBlock_def)
  have pk: "TipSet_Parents (mainTs 35) = Inr [mainCid 34]"
    by (simp add: TipSet_Parents_def mainTs_def mainBlock_def)
  have g: "GetTipSet ex_deps ex_store [mainCid 34] = Inr (mainTs 34)"
    by (simp add: GetTipSet_ex ex_get_main)
  from c1 GetTipSetByHeight_cases [OF hf, where h = 40 and d = ex_deps and store = ex_store
    and prev = False]
  have 1: "GetTipSetByHeight ex_deps ex_store (Some (mainTs 36)) 40 False = Inl ErrHeightGreater"
    by blast
  from GetTipSetByHeight_cases [OF hf, where h = 37 and d = ex_deps and store = ex_store
    and prev = False]
  have 2: "GetTipSetByHeight ex_deps ex_store (Some (mainTs 36)) 37 False = Inr (mainTs 36)"
    by blast
  from c2 c3 lk hl pk
    GetTipSetByHeight_cases [OF hf, where h = 35 and d = ex_deps and store = ex_store
      and lbts = "mainTs 35" and hl = 36 and pk = "[mainCid 34]" and prev = False]
  have 3: "GetTipSetByHeight ex_deps ex_store (Some (mainTs 36)) 35 False = Inr (mainTs 35)"
    by simp
  from c2 c3 lk hl pk g
    GetTipSetByHeight_cases [OF hf, where h = 35 and d = ex_deps and store = ex_store
      and lbts = "mainTs 35" and hl = 36 and pk = "[mainCid 34]" and prev = True]
  have 4: "GetTipSetByHeight ex_deps ex_store (Some (mainTs 36)) 35 True = Inr (mainTs 34)"
    by simp
  from hf c1 c2 c3 lk hl pk 1 2 3 4 show ?thesis by blast
qed


lemma list_all_upt_Suc:
  "list_all P [0..<Suc n] = (P 0 \<and> list_all (\<lambda>i. P (Suc i)) [0..<n])"
proof -
  have "[0..<Suc n] = 0 # map Suc [0..<n]"
    by (simp add: upt_conv_Cons map_Suc_upt del: upt_Suc)
  then have "list_all P [0..<Suc n] = list_all P (0 # map Suc [0..<n])"
    by (simp only:)
  also have "\<dots> = (P 0 \<and> list_all (\<lambda>i. P (Suc i)) [0..<n])"
    by (simp add: list.pred_map comp_def)
  finally show ?thesis .
qed

lemma silent_ancestors_step:
  assumes "silent_ancestors d store ts (Suc n)" and "nthAncestor d store ts (Suc n) = Inr c"
  shows "\<exists>b bs p. blocks ts = b # bs \<and> BeaconEntries b = [] \<and> Height b \<noteq> 0
           \<and> GetTipSet d store (Parents b) = Inr p
           \<and> silent_ancestors d store p n \<and> nthAncestor d store p n = Inr c"
proof -
  from assms(1) have s: "silent ts"
    unfolding silent_ancestors_def list_all_upt_Suc by simp
  then obtain b bs where b: "blocks ts = b # bs" "BeaconEntries b = []" "Height b \<noteq> 0"
    by (auto simp: silent_def split: list.splits)
  then have pk: "TipSet_Parents ts = Inr (Parents b)" by (simp add: TipSet_Parents_def)
  with assms(2) obtain p where
    p: "GetTipSet d store (Parents b) = Inr p" and c: "nthAncestor d store p n = Inr c"
    by (auto split: sum.splits)
  from assms(1) pk p have "silent_ancestors d store p n"
    unfolding silent_ancestors_def list_all_upt_Suc by simp
  with b p c show ?thesis by blast
qed

lemma beaconLoop_silent:
  "silent_ancestors d store ts n \<Longrightarrow> nthAncestor d store ts n = Inr c \<Longrightarrow>
     beaconLoop d store (n + m) ts = beaconLoop d store m c"
proof (induction n arbitrary: ts)
  case 0
  then show ?case by simp
next
  case (Suc n)
  from silent_ancestors_step [OF Suc.prems] obtain b bs p where
    b: "blocks ts = b # bs" "BeaconEntries b = []" "Height b \<noteq> 0"
    and p: "GetTipSet d store (Parents b) = Inr p"
    and r: "silent_ancestors d store p n" "nthAncestor d store p n = Inr c"
    by blast
  from b p have "beaconLoop d store (Suc n + m) ts = beaconLoop d store (n + m) p"
    by (simp add: At_def EnsureHeight_def EnsureParents_def TipSet_Height_def TipSet_Parents_def)
  with Suc.IH [OF r] show ?case by simp
qed

text \<open>
  Claim C8. When the 20 tipsets the walk looks at (the tipset and its ancestors at 1 to
  19 steps) are silent and the ancestor at 20 steps loads, \<open>GetLatestBeaconEntry\<close>
  returns the entry of 16 bytes 9 when \<open>VENUS_IGNORE_DRAND\<close> is \<open>_yes_\<close> and an error
  otherwise, so also when the variable is unset. When the ancestor at \<open>i < 20\<close> steps
  is the nearest whose first block has beacon entries, the result is the last beacon
  entry of that block.
\<close>

theorem GetLatestBeaconEntry_walk:
  "(silent_ancestors d store ts 20 \<and> nthAncestor d store ts 20 = Inr c20
      \<longrightarrow> GetLatestBeaconEntry d env store ts
            = (if Getenv env ''VENUS_IGNORE_DRAND'' = ''_yes_''
               then Inr \<lparr>Round = 0, Data = replicate 16 9\<rparr>
               else Inl ErrNoBeaconEntries)
          \<and> (env ''VENUS_IGNORE_DRAND'' = None
               \<longrightarrow> GetLatestBeaconEntry d env store ts = Inl ErrNoBeaconEntries))
   \<and> (i < 20 \<and> silent_ancestors d store ts i \<and> nthAncestor d store ts i = Inr c
        \<and> At c 0 = Inr b \<and> BeaconEntries b \<noteq> []
      \<longrightarrow> GetLatestBeaconEntry d env store ts = Inr (last (BeaconEntries b)))"
proof (intro conjI impI)
  assume a: "silent_ancestors d store ts 20 \<and> nthAncestor d store ts 20 = Inr c20"
  then have "beaconLoop d store (20 + 0) ts = beaconLoop d store 0 c20"
    by (intro beaconLoop_silent) simp_all
  then have l: "beaconLoop d store 20 ts = Inr None" by simp
  have r: "replicate 16 (9 :: byte) = [9, 9, 9, 9, 9, 9, 9, 9, 9, 9, 9, 9, 9, 9, 9, 9]"
    by (simp add: numeral_eq_Suc)
  from l r show "GetLatestBeaconEntry d env store ts
            = (if Getenv env ''VENUS_IGNORE_DRAND'' = ''_yes_''
               then Inr \<lparr>Round = 0, Data = replicate 16 9\<rparr>
               else Inl ErrNoBeaconEntries)"
    by (simp add: GetLatestBeaconEntry_def)
  assume "env ''VENUS_IGNORE_DRAND'' = None"
  with l show "GetLatestBeaconEntry d env store ts = Inl ErrNoBeaconEntries"
    by (simp add: GetLatestBeaconEntry_def Getenv_def)
next
  assume a: "i < 20 \<and> silent_ancestors d store ts i \<and> nthAncestor d store ts i = Inr c
        \<and> At c 0 = Inr b \<and> BeaconEntries b \<noteq> []"
  then obtain m where m: "20 = i + Suc m"
    by (metis less_imp_Suc_add add_Suc_right)
  from a have "beaconLoop d store (i + Suc m) ts = beaconLoop d store (Suc m) c"
    by (intro beaconLoop_silent) simp_all
  with a m have "beaconLoop d store 20 ts = Inr (Some (last (BeaconEntries b)))"
    by simp
  then show "GetLatestBeaconEntry d env store ts = Inr (last (BeaconEntries b))"
    by (simp add: GetLatestBeaconEntry_def)
qed


theorem GetLatestBeaconEntry_walk_witness:
  "silent_ancestors ex_deps ex_store (mainTs 30) 20
   \<and> nthAncestor ex_deps ex_store (mainTs 30) 20 = Inr (mainTs 10)
   \<and> Getenv [''VENUS_IGNORE_DRAND'' \<mapsto> ''_yes_''] ''VENUS_IGNORE_DRAND'' = ''_yes_''
   \<and> GetLatestBeaconEntry ex_deps [''VENUS_IGNORE_DRAND'' \<mapsto> ''_yes_''] ex_store (mainTs 30)
       = Inr \<lparr>Round = 0, Data = replicate 16 9\<rparr>
   \<and> (Map.empty :: string \<rightharpoonup> string) ''VENUS_IGNORE_DRAND'' = None
   \<and> GetLatestBeaconEntry ex_deps Map.empty ex_store (mainTs 30) = Inl ErrNoBeaconEntries
   \<and> (2 :: nat) < 20
   \<and> silent_ancestors ex_deps ex_store (mainTs 5) 2
   \<and> nthAncestor ex_deps ex_store (mainTs 5) 2 = Inr (mainTs 3)
   \<and> At (mainTs 3) 0 = Inr (mainBlock 3)
   \<and> BeaconEntries (mainBlock 3) \<noteq> []
   \<and> GetLatestBeaconEntry ex_deps Map.empty ex_store (mainTs 5)
       = Inr \<lparr>Round = 3, Data = [1, 2]\<rparr>"
proof -
  have s20: "silent_ancestors ex_deps ex_store (mainTs 30) 20"
    by code_simp
  have n20: "nthAncestor ex_deps ex_store (mainTs 30) 20 = Inr (mainTs 10)"
    by code_simp
  have y: "Getenv [''VENUS_IGNORE_DRAND'' \<mapsto> ''_yes_''] ''VENUS_IGNORE_DRAND'' = ''_yes_''"
    by (simp add: Getenv_def)
  have s2: "silent_ancestors ex_deps ex_store (mainTs 5) 2"
    by code_simp
  have n2: "nthAncestor ex_deps ex_store (mainTs 5) 2 = Inr (mainTs 3)"
    by code_simp
  have at: "At (mainTs 3) 0 = Inr (mainBlock 3)"
    by (simp add: At_def mainTs_def)
  have be: "BeaconEntries (mainBlock 3) \<noteq> []"
    by (simp add: mainBlock_def)
  have la: "last (BeaconEntries (mainBlock 3)) = \<lparr>Round = 3, Data = [1, 2]\<rparr>"
    by (simp add: mainBlock_def)
  from s20 n20 y
    GetLatestBeaconEntry_walk [where d = ex_deps and store = ex_store and ts = "mainTs 30"
      and ?c20.0 = "mainTs 10" and env = "[''VENUS_IGNORE_DRAND'' \<mapsto> ''_yes_'']"]
  have 1: "GetLatestBeaconEntry ex_deps [''VENUS_IGNORE_DRAND'' \<mapsto> ''_yes_''] ex_store (mainTs 30)
             = Inr \<lparr>Round = 0, Data = replicate 16 9\<rparr>"
    by simp
  from s20 n20
    GetLatestBeaconEntry_walk [where d = ex_deps and store = ex_store and ts = "mainTs 30"
      and ?c20.0 = "mainTs 10" and env = Map.empty]
  have 2: "GetLatestBeaconEntry ex_deps Map.empty ex_store (mainTs 30) = Inl ErrNoBeaconEntries"
    by (simp add: Getenv_def)
  from s2 n2 at be la
    GetLatestBeaconEntry_walk [where d = ex_deps and store = ex_store and ts = "mainTs 5"
      and i = 2 and c = "mainTs 3" and b = "mainBlock 3" and env = Map.empty]
  have 3: "GetLatestBeaconEntry ex_deps Map.empty ex_store (mainTs 5)
             = Inr \<lparr>Round = 3, Data = [1, 2]\<rparr>"
    by simp
  from s20 n20 y s2 n2 at be 1 2 3 show ?thesis by simp
qed


subsection \<open>Load\<close>





















text \<open>
  The condition on the chain is needed. On the chain with two tipsets at height 0 the
  checkpoint is at height 5, so \<open>stop_at\<close> is 0 and a walk that stops there visits the
  head \<open>g1\<close> alone; \<open>Load\<close> stops at \<open>loopBack\<close>, which is 5 - 10, and has put \<open>g0\<close>,
  the parent of the head, in the index as well.
\<close>

lemma Load_on_a_chain_with_two_tipsets_at_height_0:
  "map_option fst (Load ex_deps 5 low_store) = Some None
   \<and> stop_at_saturating (Some 5) = 0
   \<and> ancestorsTo ex_deps (stateAndBlockSource low_store) 5 (stop_at_saturating (Some 5))
        (lowTs ''g1'' 0 [CidStr ''g0''])
       = Some [lowTs ''g1'' 0 [CidStr ''g0'']]
   \<and> HasTipSetAndState (snd (the (Load ex_deps 5 low_store))) (Key (lowTs ''g0'' 0 []))"
proof -
  have 1: "map_option fst (Load ex_deps 5 low_store) = Some None"
    by code_simp
  have 2: "stop_at_saturating (Some 5) = 0"
    by (simp add: stop_at_saturating_def word_sless_alt)
  have 4: "ancestorsTo ex_deps (stateAndBlockSource low_store) 5 (stop_at_saturating (Some 5))
        (lowTs ''g1'' 0 [CidStr ''g0''])
       = Some [lowTs ''g1'' 0 [CidStr ''g0'']]"
    by code_simp
  have 6: "HasTipSetAndState (snd (the (Load ex_deps 5 low_store))) (Key (lowTs ''g0'' 0 []))"
    by code_simp
  from 1 2 4 6 show ?thesis by blast
qed

end
